theory Spec2Isabelle
  imports Main "HOL-Library.Monad_Syntax"
begin

section \<open>Data model of abczed.c\<close>

text \<open>
  The editor keeps one global \<^verbatim>\<open>editor_config E\<close>; every function of the source reads
  and writes it. Here each function takes the configuration and returns the new one.

  \<^item> A row is the \<^verbatim>\<open>erow\<close> struct: its \<^verbatim>\<open>size\<close> field (\<open>rsize\<close>) and the block of bytes
    \<^verbatim>\<open>chars\<close> points to, \<open>None\<close> for \<^verbatim>\<open>NULL\<close>. The block is as long as its allocation,
    so it holds the terminating NUL and whatever bytes lie behind it.
  \<^item> \<^verbatim>\<open>E.row\<close> is the list of the first \<^verbatim>\<open>E.numrows\<close> slots of the row array, so
    \<^verbatim>\<open>numrows\<close> is the length of that list.
  \<^item> The two operation stacks are lists, top first. The line of an operation is the
    string of its \<^verbatim>\<open>line_size\<close> bytes; its block ends with a NUL after them.
  \<^item> \<^verbatim>\<open>int\<close> fields are \<open>int\<close>; the cursor and a row's size can go negative in the
    source.
  \<^item> Fields that none of the functions below reads (\<^verbatim>\<open>coloff\<close>, \<^verbatim>\<open>screencols\<close>,
    \<^verbatim>\<open>filename\<close>, the command buffer, the display options) are left out.
  \<^item> A function returns \<open>None\<close> where the source's outcome is not determined by its
    text: it indexes \<^verbatim>\<open>E.row\<close> outside \<open>0..numrows-1\<close>, reads or writes outside a block
    or through \<^verbatim>\<open>NULL\<close>, copies a negative number of bytes, asks for a block of zero
    bytes, or leaves in a row a byte that was never written.
  \<^item> \<open>allocs\<close> lists the outcomes of the coming \<^verbatim>\<open>malloc\<close>/\<^verbatim>\<open>realloc\<close> calls whose result
    the source checks (\<open>False\<close>: the call returns \<^verbatim>\<open>NULL\<close>); the empty list means
    that every such call succeeds. A request for a negative number of bytes (a huge
    \<^verbatim>\<open>size_t\<close>) can only fail: where \<open>allocs\<close> has it succeed there is no such run, and
    the result is \<open>None\<close>. The allocations of \<^verbatim>\<open>push_operation\<close> and of the clipboard
    lines are not checked by the source and are taken to succeed.
\<close>

datatype editor_mode = MODE_NORMAL | MODE_INSERT | MODE_COMMAND | MODE_SELECTION

datatype operation_type =
  OP_INSERT_CHAR | OP_DELETE_CHAR | OP_INSERT_LINE | OP_DELETE_LINE | OP_NEWLINE

record operation =
  op_type :: operation_type
  op_cx :: int
  op_cy :: int
  op_c :: char
  op_line :: "string option"
  op_line_size :: int

record erow =
  rsize :: int
  chars :: "string option"

record editor_config =
  cx :: int
  cy :: int
  rowoff :: int
  screenrows :: int
  row :: "erow list"
  dirty :: int
  statusmsg :: string
  mode :: editor_mode
  clipboard :: "string option list option"
  clipboard_len :: int
  sel_start_x :: int
  sel_start_y :: int
  sel_end_x :: int
  sel_end_y :: int
  selecting :: bool
  undo_stack :: "operation list"
  redo_stack :: "operation list"
  allocs :: "bool list"

definition numrows :: "editor_config \<Rightarrow> int" where
  "numrows E = int (length (row E))"

text \<open>\<^verbatim>\<open>E.row[y]\<close> and \<^verbatim>\<open>E.row[y].size\<close>, for \<open>0 \<le> y < numrows\<close>.\<close>

definition row_at :: "editor_config \<Rightarrow> int \<Rightarrow> erow" where
  "row_at E y = row E ! nat y"

definition row_size :: "editor_config \<Rightarrow> int \<Rightarrow> int" where
  "row_size E y = rsize (row_at E y)"

definition set_row :: "editor_config \<Rightarrow> int \<Rightarrow> erow \<Rightarrow> editor_config" where
  "set_row E y r = E\<lparr>row := (row E)[nat y := r]\<rparr>"

subsection \<open>Memory\<close>

text \<open>
  Reading \<open>n\<close> bytes at offset \<open>off\<close> of a block and writing bytes there; both stay
  inside the block. A transfer of zero bytes touches nothing.
\<close>

definition mem_read :: "'a list \<Rightarrow> int \<Rightarrow> int \<Rightarrow> 'a list option" where
  "mem_read b off n =
     (if n = 0 then Some []
      else if 0 \<le> off \<and> 0 < n \<and> off + n \<le> int (length b)
      then Some (take (nat n) (drop (nat off) b))
      else None)"

definition mem_write :: "'a list \<Rightarrow> int \<Rightarrow> 'a list \<Rightarrow> 'a list option" where
  "mem_write b off xs =
     (if xs = [] then Some b
      else if 0 \<le> off \<and> off + int (length xs) \<le> int (length b)
      then Some (take (nat off) b @ xs @ drop (nat off + length xs) b)
      else None)"

text \<open>\<^verbatim>\<open>memmove(&p[dst], &p[src], n)\<close> inside one block.\<close>

definition memmove :: "'a list \<Rightarrow> int \<Rightarrow> int \<Rightarrow> int \<Rightarrow> 'a list option" where
  "memmove b dst src n = (case mem_read b src n of None \<Rightarrow> None | Some xs \<Rightarrow> mem_write b dst xs)"

text \<open>
  A \<^verbatim>\<open>char *\<close> argument: the block it points into (\<open>None\<close> for the block of \<^verbatim>\<open>NULL\<close>)
  and the offset. \<open>read_ptr\<close> is the source of a \<^verbatim>\<open>memcpy\<close> of \<open>n\<close> bytes.
\<close>

type_synonym ptr = "string option \<times> int"

definition is_null :: "ptr \<Rightarrow> bool" where
  "is_null p = (fst p = None \<and> snd p = 0)"

definition read_ptr :: "ptr \<Rightarrow> int \<Rightarrow> string option" where
  "read_ptr p n =
     (case fst p of
        None \<Rightarrow> if n = 0 then Some [] else None
      | Some b \<Rightarrow> mem_read b (snd p) n)"

text \<open>The string literal \<^verbatim>\<open>""\<close> and the NUL-terminated block of \<open>n\<close> copied bytes.\<close>

definition empty_literal :: ptr where
  "empty_literal = (Some [CHR 0x00], 0)"

definition terminated :: "string \<Rightarrow> string" where
  "terminated s = s @ [CHR 0x00]"

text \<open>
  A block while it is being filled: a byte is \<open>None\<close> until it is written.
  \<open>resize n chars\<close> is \<^verbatim>\<open>realloc(chars, n)\<close> (\<^verbatim>\<open>malloc(n)\<close> when \<^verbatim>\<open>chars\<close> is \<^verbatim>\<open>NULL\<close>);
  \<open>freeze\<close> gives the block back when every byte of it has been written.
\<close>

definition resize :: "int \<Rightarrow> string option \<Rightarrow> char option list" where
  "resize n old =
     (let bs = (case old of None \<Rightarrow> [] | Some b \<Rightarrow> map Some b)
      in take (nat n) bs @ replicate (nat n - length bs) None)"

definition freeze :: "char option list \<Rightarrow> string option" where
  "freeze bs = (if None \<in> set bs then None else Some (map the bs))"

text \<open>The outcome of the next checked allocation, and the configuration after it.\<close>

definition alloc_ok :: "editor_config \<Rightarrow> bool" where
  "alloc_ok E = (case allocs E of [] \<Rightarrow> True | b # _ \<Rightarrow> b)"

definition alloc_next :: "editor_config \<Rightarrow> editor_config" where
  "alloc_next E = E\<lparr>allocs := tl (allocs E)\<rparr>"

text \<open>A checked request for \<open>n\<close> bytes, \<open>n\<close> computed in \<^verbatim>\<open>int\<close> by the source.\<close>

definition alloc_req :: "int \<Rightarrow> editor_config \<Rightarrow> (bool \<times> editor_config) option" where
  "alloc_req n E =
     (if n = 0 then None
      else if n < 0 \<and> alloc_ok E then None
      else Some (alloc_ok E, alloc_next E))"

text \<open>\<^verbatim>\<open>%d\<close> of \<^verbatim>\<open>snprintf\<close>.\<close>

fun show_nat :: "nat \<Rightarrow> string" where
  "show_nat n =
     (if n < 10 then [char_of (48 + n)]
      else show_nat (n div 10) @ [char_of (48 + n mod 10)])"

definition show_int :: "int \<Rightarrow> string" where
  "show_int i = (if i < 0 then CHR ''-'' # show_nat (nat (- i)) else show_nat (nat i))"

text \<open>A C string stops at its first NUL byte (\<^verbatim>\<open>strdup\<close>, \<^verbatim>\<open>strlen\<close>, the paste loop).\<close>

definition c_str :: "string \<Rightarrow> string" where
  "c_str s = takeWhile (\<lambda>c. c \<noteq> CHR 0x00) s"

section \<open>Operation log and line store\<close>

text \<open>
  \<^verbatim>\<open>push_operation\<close>: the line is copied only when the pointer is not \<^verbatim>\<open>NULL\<close> and
  \<^verbatim>\<open>line_size > 0\<close>; \<^verbatim>\<open>line_size\<close> is stored as given.
\<close>

definition push_operation ::
  "operation list \<Rightarrow> operation_type \<Rightarrow> int \<Rightarrow> int \<Rightarrow> char \<Rightarrow> ptr \<Rightarrow> int
     \<Rightarrow> operation list option" where
  "push_operation stack ty x y c line line_size =
     (if \<not> is_null line \<and> line_size > 0 then
        (case read_ptr line line_size of
           None \<Rightarrow> None
         | Some l \<Rightarrow>
             Some (\<lparr>op_type = ty, op_cx = x, op_cy = y, op_c = c, op_line = Some l,
                    op_line_size = line_size\<rparr> # stack))
      else
        Some (\<lparr>op_type = ty, op_cx = x, op_cy = y, op_c = c, op_line = None,
               op_line_size = line_size\<rparr> # stack))"

text \<open>
  \<^verbatim>\<open>editor_insert_row(at, s, len)\<close>. The source moves the rows from \<open>at\<close> on one slot up,
  stores the result of \<^verbatim>\<open>malloc(len + 1)\<close> in \<^verbatim>\<open>E.row[at].chars\<close> and only then tests it.
  When that \<^verbatim>\<open>malloc\<close> fails, \<^verbatim>\<open>numrows\<close> is not incremented: the first \<^verbatim>\<open>numrows\<close> slots
  then hold, at \<open>at\<close>, the old row's size with \<^verbatim>\<open>chars = NULL\<close>, behind it the old rows
  from \<open>at\<close> on, and no longer the last row. At \<open>at = numrows\<close> the slot written is
  past the counted rows.
\<close>

definition editor_insert_row :: "int \<Rightarrow> ptr \<Rightarrow> int \<Rightarrow> editor_config \<Rightarrow> editor_config option" where
  "editor_insert_row at s len E =
     (if at < 0 \<or> at > numrows E then Some E
      else if \<not> alloc_ok E
      then Some ((alloc_next E)\<lparr>statusmsg := ''Memory allocation failed''\<rparr>)
      else do {
        let E1 = alloc_next E;
        let moved = (if at < numrows E1
                     then take (nat at) (row E1) @ [(row_at E1 at)\<lparr>chars := None\<rparr>]
                            @ butlast (drop (nat at) (row E1))
                     else row E1);
        (ok, E2) \<leftarrow> alloc_req (len + 1) E1;
        if \<not> ok
        then Some (E2\<lparr>row := moved, statusmsg := ''Memory allocation failed''\<rparr>)
        else do {
          bytes \<leftarrow> read_ptr s len;
          st \<leftarrow> push_operation (undo_stack E2) OP_INSERT_LINE 0 at (CHR 0x00) s len;
          Some (E2\<lparr>row := take (nat at) (row E2)
                            @ [\<lparr>rsize = len, chars = Some (terminated bytes)\<rparr>]
                            @ drop (nat at) (row E2),
                    dirty := dirty E2 + 1,
                    statusmsg := ''Line inserted at position '' @ show_int (at + 1),
                    undo_stack := st,
                    redo_stack := []\<rparr>)
        }
      })"

definition editor_del_row :: "int \<Rightarrow> editor_config \<Rightarrow> editor_config option" where
  "editor_del_row at E =
     (if at < 0 \<or> at \<ge> numrows E then Some E
      else do {
        st \<leftarrow> push_operation (undo_stack E) OP_DELETE_LINE 0 at (CHR 0x00)
               (chars (row_at E at), 0) (row_size E at);
        Some (E\<lparr>undo_stack := st,
                 row := take (nat at) (row E) @ drop (nat at + 1) (row E),
                 dirty := dirty E + 1,
                 redo_stack := []\<rparr>)
      })"

section \<open>Edit engine\<close>

text \<open>
  The statements that \<^verbatim>\<open>editor_insert_char\<close> and the undo of a deleted character share,
  after their \<^verbatim>\<open>realloc(row->chars, row->size + 2)\<close> has succeeded: move the bytes from
  \<open>x\<close> up to the terminator one place up, increment the size, store \<open>c\<close> at \<open>x\<close>.
\<close>

definition row_insert_byte :: "erow \<Rightarrow> int \<Rightarrow> char \<Rightarrow> erow option" where
  "row_insert_byte r x c =
     do {
       bs1 \<leftarrow> memmove (resize (rsize r + 2) (chars r)) (x + 1) x (rsize r - x + 1);
       bs2 \<leftarrow> mem_write bs1 x [Some c];
       b \<leftarrow> freeze bs2;
       Some \<lparr>rsize = rsize r + 1, chars = Some b\<rparr>
     }"

definition editor_insert_char :: "char \<Rightarrow> editor_config \<Rightarrow> editor_config option" where
  "editor_insert_char c E0 =
     do {
       E1 \<leftarrow> (if cy E0 = numrows E0 then editor_insert_row (numrows E0) empty_literal 0 E0
              else Some E0);
       if cy E1 < 0 \<or> cy E1 \<ge> numrows E1 then None
       else do {
         st \<leftarrow> push_operation (undo_stack E1) OP_INSERT_CHAR (cx E1) (cy E1) c (None, 0) 0;
         (ok, E2) \<leftarrow> alloc_req (row_size E1 (cy E1) + 2) (E1\<lparr>undo_stack := st\<rparr>);
         if \<not> ok then Some (E2\<lparr>statusmsg := ''Memory allocation failed''\<rparr>)
         else do {
           r \<leftarrow> row_insert_byte (row_at E2 (cy E2)) (cx E2) c;
           Some ((set_row E2 (cy E2) r)\<lparr>cx := cx E2 + 1, dirty := dirty E2 + 1, redo_stack := []\<rparr>)
         }
       }
     }"

text \<open>
  \<^verbatim>\<open>editor_insert_newline\<close>. The copy of the text behind the cursor is made only when
  the cursor is left of the row's end; the row is then split by \<^verbatim>\<open>editor_insert_row\<close>
  and, for a cursor not at column 0, by cutting the row at the cursor.
\<close>

definition editor_insert_newline :: "editor_config \<Rightarrow> editor_config option" where
  "editor_insert_newline E0 =
     (let E = E0\<lparr>redo_stack := []\<rparr>
      in if numrows E = 0 then
           do {
             E1 \<leftarrow> editor_insert_row 0 empty_literal 0 E;
             st \<leftarrow> push_operation (undo_stack E1) OP_NEWLINE 0 0 (CHR 0x0A) (None, 0) 0;
             Some (E1\<lparr>undo_stack := st, cy := 0, cx := 0, dirty := dirty E1 + 1\<rparr>)
           }
         else if cy E < 0 \<or> cy E \<ge> numrows E then None
         else do {
           let r = row_at E (cy E);
           let wants_copy = (cx E < rsize r);
           let line_size = (if wants_copy then rsize r - cx E else 0);
           let copied = (wants_copy \<and> alloc_ok E);
           let E1 = (if wants_copy then alloc_next E else E);
           line_copy \<leftarrow> (if copied
                         then map_option (\<lambda>l. (Some (terminated l), 0)) (read_ptr (chars r, cx E) line_size)
                         else Some (None, 0));
           E2 \<leftarrow> (if cx E1 = 0 then editor_insert_row (cy E1) empty_literal 0 E1
                  else do {
                    E' \<leftarrow> editor_insert_row (cy E1 + 1) (chars r, cx E1) (rsize r - cx E1) E1;
                    b \<leftarrow> chars (row_at E' (cy E'));
                    b' \<leftarrow> mem_write b (cx E') [CHR 0x00];
                    Some (set_row E' (cy E') \<lparr>rsize = cx E', chars = Some b'\<rparr>)
                  });
           st \<leftarrow> push_operation (undo_stack E2) OP_NEWLINE (cx E2) (cy E2) (CHR 0x0A)
                  line_copy line_size;
           Some (E2\<lparr>undo_stack := st, cy := cy E2 + 1, cx := 0, dirty := dirty E2 + 1\<rparr>)
         })"

text \<open>
  \<^verbatim>\<open>editor_del_char\<close>. With the cursor at column 0 of a later row the source calls
  \<^verbatim>\<open>editor_insert_row(E.cy - 1, row->chars, row->size)\<close> and then
  \<^verbatim>\<open>editor_del_row(E.cy)\<close>.
\<close>

definition editor_del_char :: "editor_config \<Rightarrow> editor_config option" where
  "editor_del_char E =
     (if cy E = numrows E then Some E
      else if cx E = 0 \<and> cy E = 0 then Some E
      else if cy E < 0 \<or> cy E > numrows E then None
      else
        let r = row_at E (cy E)
        in if cx E > 0 then
             do {
               b \<leftarrow> chars r;
               c \<leftarrow> mem_read b (cx E - 1) 1;
               st \<leftarrow> push_operation (undo_stack E) OP_DELETE_CHAR (cx E - 1) (cy E) (hd c)
                      (None, 0) 0;
               b' \<leftarrow> memmove b (cx E - 1) (cx E) (rsize r - cx E + 1);
               Some ((set_row E (cy E) \<lparr>rsize = rsize r - 1, chars = Some b'\<rparr>)
                       \<lparr>undo_stack := st, cx := cx E - 1, dirty := dirty E + 1,
                        redo_stack := []\<rparr>)
             }
           else if cy E < 1 then None
           else do {
             let E1 = E\<lparr>cx := row_size E (cy E - 1)\<rparr>;
             E2 \<leftarrow> editor_insert_row (cy E1 - 1) (chars r, 0) (rsize r) E1;
             E3 \<leftarrow> editor_del_row (cy E2) E2;
             Some (E3\<lparr>cy := cy E3 - 1, redo_stack := []\<rparr>)
           })"

section \<open>Undo and redo\<close>

text \<open>The pointer \<^verbatim>\<open>op->line\<close>.\<close>

definition op_line_ptr :: "operation \<Rightarrow> ptr" where
  "op_line_ptr p = (map_option terminated (op_line p), 0)"

text \<open>The closing \<^verbatim>\<open>push_operation\<close> of \<^verbatim>\<open>editor_undo\<close> and of \<^verbatim>\<open>editor_redo\<close>.\<close>

definition push_redo :: "operation \<Rightarrow> editor_config \<Rightarrow> editor_config option" where
  "push_redo p E =
     do {
       st \<leftarrow> push_operation (redo_stack E) (op_type p) (op_cx p) (op_cy p) (op_c p)
              (op_line_ptr p) (op_line_size p);
       Some (E\<lparr>redo_stack := st\<rparr>)
     }"

definition push_undo :: "operation \<Rightarrow> editor_config \<Rightarrow> editor_config option" where
  "push_undo p E =
     do {
       st \<leftarrow> push_operation (undo_stack E) (op_type p) (op_cx p) (op_cy p) (op_c p)
              (op_line_ptr p) (op_line_size p);
       Some (E\<lparr>undo_stack := st\<rparr>)
     }"

definition undo_insert_char :: "operation \<Rightarrow> editor_config \<Rightarrow> editor_config option" where
  "undo_insert_char p E0 =
     (let E = E0\<lparr>cx := op_cx p, cy := op_cy p\<rparr>
      in if cy E < numrows E then
           (if cy E < 0 then None
            else
              let r = row_at E (cy E)
              in if cx E < rsize r then
                   do {
                     b \<leftarrow> chars r;
                     b' \<leftarrow> memmove b (cx E) (cx E + 1) (rsize r - cx E);
                     Some ((set_row E (cy E) \<lparr>rsize = rsize r - 1, chars = Some b'\<rparr>)
                             \<lparr>dirty := dirty E + 1\<rparr>)
                   }
                 else Some E)
         else Some E)"

text \<open>
  Undo of a deleted character. When \<^verbatim>\<open>realloc\<close> fails the source returns at once:
  the operation has left the undo stack and is not pushed on the redo stack, which
  \<open>Inl\<close> records; \<open>Inr\<close> goes on to the closing push.
\<close>

definition undo_delete_char ::
  "operation \<Rightarrow> editor_config \<Rightarrow> (editor_config + editor_config) option" where
  "undo_delete_char p E0 =
     (let E = E0\<lparr>cx := op_cx p, cy := op_cy p\<rparr>
      in if cy E < numrows E then
           (if cy E < 0 then None
            else do {
              (ok, E1) \<leftarrow> alloc_req (row_size E (cy E) + 2) E;
              if \<not> ok then Some (Inl (E1\<lparr>statusmsg := ''Memory allocation failed''\<rparr>))
              else do {
                r \<leftarrow> row_insert_byte (row_at E1 (cy E1)) (cx E1) (op_c p);
                Some (Inr ((set_row E1 (cy E1) r)\<lparr>dirty := dirty E1 + 1\<rparr>))
              }
            })
         else Some (Inr E))"

text \<open>
  Undo of a newline merges row \<^verbatim>\<open>E.cy\<close> (the cursor's row, not the recorded one)
  into the row above and deletes it with \<^verbatim>\<open>editor_del_row\<close>. The record's line is
  replaced by its \<^verbatim>\<open>strdup\<close> copy. The result is the record to push and the
  configuration.
\<close>

definition undo_newline ::
  "operation \<Rightarrow> editor_config \<Rightarrow> (operation \<times> editor_config) option" where
  "undo_newline p E =
     (if cy E > 0 then
        (if cy E \<ge> numrows E then None
         else do {
           let prev = row_at E (cy E - 1);
           let curr = row_at E (cy E);
           let has_line = (op_line p \<noteq> None);
           let line_copy = (if has_line \<and> alloc_ok E then map_option c_str (op_line p)
                            else None);
           let E1 = (if has_line then alloc_next E else E);
           let new_size = rsize prev + rsize curr;
           (ok, E2) \<leftarrow> alloc_req (new_size + 1) E1;
           if ok then
             do {
               src \<leftarrow> read_ptr (chars curr, 0) (rsize curr);
               bs1 \<leftarrow> mem_write (resize (new_size + 1) (chars prev)) (rsize prev) (map Some src);
               bs2 \<leftarrow> mem_write bs1 new_size [Some (CHR 0x00)];
               b \<leftarrow> freeze bs2;
               let E3 = set_row E2 (cy E2 - 1) \<lparr>rsize = new_size, chars = Some b\<rparr>;
               E4 \<leftarrow> editor_del_row (cy E3) E3;
               let E5 = E4\<lparr>cy := cy E4 - 1, cx := op_cx p, dirty := dirty E4 + 1\<rparr>;
               let p' = p\<lparr>op_line := line_copy,
                           op_line_size := (case line_copy of
                                              None \<Rightarrow> 0
                                            | Some l \<Rightarrow> int (length l))\<rparr>;
               Some (p', E5)
             }
           else Some (p, E2)
         })
      else Some (p, E))"

text \<open>
  \<^verbatim>\<open>editor_undo\<close>. The character cases edit the row in place; the line cases and the
  newline case call \<^verbatim>\<open>editor_del_row\<close> and \<^verbatim>\<open>editor_insert_row\<close>.
\<close>

definition editor_undo :: "editor_config \<Rightarrow> editor_config option" where
  "editor_undo E =
     (case undo_stack E of
        [] \<Rightarrow> Some (E\<lparr>statusmsg := ''Nothing to undo''\<rparr>)
      | p # rest \<Rightarrow>
          let E0 = E\<lparr>undo_stack := rest\<rparr>
          in (case op_type p of
               OP_INSERT_CHAR \<Rightarrow> Option.bind (undo_insert_char p E0) (push_redo p)
             | OP_DELETE_CHAR \<Rightarrow>
                 (case undo_delete_char p E0 of
                    None \<Rightarrow> None
                  | Some (Inl E1) \<Rightarrow> Some E1
                  | Some (Inr E1) \<Rightarrow> push_redo p E1)
             | OP_INSERT_LINE \<Rightarrow>
                 do {
                   E1 \<leftarrow> editor_del_row (op_cy p) E0;
                   push_redo p (E1\<lparr>cx := 0, cy := op_cy p\<rparr>)
                 }
             | OP_DELETE_LINE \<Rightarrow>
                 do {
                   E1 \<leftarrow> editor_insert_row (op_cy p) (op_line_ptr p) (op_line_size p) E0;
                   push_redo p (E1\<lparr>cx := 0, cy := op_cy p\<rparr>)
                 }
             | OP_NEWLINE \<Rightarrow>
                 (case undo_newline p E0 of
                    None \<Rightarrow> None
                  | Some (p', E1) \<Rightarrow> push_redo p' E1)))"

text \<open>
  Redo goes through the edit engine again (\<^verbatim>\<open>editor_insert_char\<close>,
  \<^verbatim>\<open>editor_del_char\<close>, \<^verbatim>\<open>editor_insert_newline\<close>, the row functions), which push on the
  undo stack themselves, and then pushes the record once more.
\<close>

definition redo_newline :: "operation \<Rightarrow> editor_config \<Rightarrow> editor_config option" where
  "redo_newline p E =
     (if cy E < numrows E then
        do {
          let save_cx = cx E;
          let save_cy = cy E;
          E1 \<leftarrow> editor_insert_newline (E\<lparr>cx := op_cx p, cy := op_cy p\<rparr>);
          if op_line p \<noteq> None \<and> op_line_size p > 0 then
            (if cy E1 < 0 \<or> cy E1 \<ge> numrows E1 then None
             else do {
               (ok, E2) \<leftarrow> alloc_req (op_line_size p + 1) E1;
               r \<leftarrow> (if ok
                     then map_option (\<lambda>l. \<lparr>rsize = op_line_size p, chars = Some (terminated l)\<rparr>)
                            (read_ptr (op_line_ptr p) (op_line_size p))
                     else Some \<lparr>rsize = 0, chars = None\<rparr>);
               Some ((set_row E2 (cy E2) r)\<lparr>cx := save_cx, cy := save_cy\<rparr>)
             })
          else Some (E1\<lparr>cx := save_cx, cy := save_cy\<rparr>)
        }
      else Some E)"

definition editor_redo :: "editor_config \<Rightarrow> editor_config option" where
  "editor_redo E =
     (case redo_stack E of
        [] \<Rightarrow> Some (E\<lparr>statusmsg := ''Nothing to redo''\<rparr>)
      | p # rest \<Rightarrow>
          let E0 = E\<lparr>redo_stack := rest\<rparr>
          in Option.bind
               (case op_type p of
                  OP_INSERT_CHAR \<Rightarrow> editor_insert_char (op_c p) (E0\<lparr>cx := op_cx p, cy := op_cy p\<rparr>)
                | OP_DELETE_CHAR \<Rightarrow> editor_del_char (E0\<lparr>cx := op_cx p + 1, cy := op_cy p\<rparr>)
                | OP_INSERT_LINE \<Rightarrow>
                    map_option (\<lambda>E1. E1\<lparr>cx := 0, cy := op_cy p\<rparr>)
                      (editor_insert_row (op_cy p) (op_line_ptr p) (op_line_size p) E0)
                | OP_DELETE_LINE \<Rightarrow>
                    map_option (\<lambda>E1. E1\<lparr>cx := 0, cy := op_cy p\<rparr>) (editor_del_row (op_cy p) E0)
                | OP_NEWLINE \<Rightarrow> redo_newline p E0)
               (push_undo p))"

section \<open>Selection and clipboard\<close>

definition editor_selection_start :: "editor_config \<Rightarrow> editor_config" where
  "editor_selection_start E =
     E\<lparr>sel_start_x := cx E, sel_start_y := cy E, sel_end_x := cx E, sel_end_y := cy E,
       selecting := True\<rparr>"

definition editor_selection_update :: "editor_config \<Rightarrow> editor_config" where
  "editor_selection_update E =
     (if selecting E then E\<lparr>sel_end_x := cx E, sel_end_y := cy E\<rparr> else E)"

definition editor_selection_clear :: "editor_config \<Rightarrow> editor_config" where
  "editor_selection_clear E =
     E\<lparr>sel_start_x := -1, sel_start_y := -1, sel_end_x := -1, sel_end_y := -1,
       selecting := False\<rparr>"

definition editor_selection_normalize :: "editor_config \<Rightarrow> editor_config" where
  "editor_selection_normalize E =
     (if sel_end_y E < sel_start_y E
         \<or> (sel_end_y E = sel_start_y E \<and> sel_end_x E < sel_start_x E)
      then E\<lparr>sel_start_x := sel_end_x E, sel_start_y := sel_end_y E,
             sel_end_x := sel_start_x E, sel_end_y := sel_start_y E\<rparr>
      else E)"

definition is_position_selected :: "int \<Rightarrow> int \<Rightarrow> editor_config \<Rightarrow> bool" where
  "is_position_selected x y E =
     (if \<not> selecting E \<or> sel_start_x E = -1 then False
      else
        let swap = (sel_end_y E < sel_start_y E
                     \<or> (sel_end_y E = sel_start_y E \<and> sel_end_x E < sel_start_x E));
            start_x = (if swap then sel_end_x E else sel_start_x E);
            start_y = (if swap then sel_end_y E else sel_start_y E);
            end_x = (if swap then sel_start_x E else sel_end_x E);
            end_y = (if swap then sel_start_y E else sel_end_y E)
        in if y < start_y \<or> y > end_y then False
           else if y = start_y \<and> x < start_x then False
           else if y = end_y \<and> x \<ge> end_x then False
           else True)"

definition editor_select_all :: "editor_config \<Rightarrow> editor_config" where
  "editor_select_all E =
     (if numrows E > 0
      then E\<lparr>sel_start_x := 0, sel_start_y := 0, sel_end_y := numrows E - 1,
             sel_end_x := row_size E (numrows E - 1), selecting := True,
             statusmsg := ''Selected all text''\<rparr>
      else E)"

text \<open>
  The loop of the multi-line copy, for the line numbers \<open>is\<close> still to do out of
  \<open>num_lines\<close>. A clipboard line is the string of the bytes copied; its block ends with a
  NUL after them. The \<^verbatim>\<open>break\<close> at the end of the buffer leaves the remaining
  clipboard slots uninitialised: they are \<open>None\<close> in the clipboard.
\<close>

fun copy_lines :: "editor_config \<Rightarrow> int \<Rightarrow> nat list \<Rightarrow> string option list option" where
  "copy_lines E num_lines [] = Some []"
| "copy_lines E num_lines (i # is) =
     (let y = sel_start_y E + int i
      in if y \<ge> numrows E then Some (replicate (Suc (length is)) None)
         else if y < 0 then None
         else
           let r = row_at E y;
               start = (if i = 0 then sel_start_x E else 0);
               end = (if int i = num_lines - 1 then sel_end_x E else rsize r)
           in if end - start < 0 then None
              else (case read_ptr (chars r, start) (end - start) of
                      None \<Rightarrow> None
                    | Some l \<Rightarrow>
                        (case copy_lines E num_lines is of
                           None \<Rightarrow> None
                         | Some rest \<Rightarrow> Some (Some l # rest))))"

definition editor_copy_selection :: "editor_config \<Rightarrow> editor_config option" where
  "editor_copy_selection E0 =
     (if sel_start_x E0 = -1 \<or> sel_start_y E0 = -1 \<or> sel_end_x E0 = -1 \<or> sel_end_y E0 = -1
      then Some (E0\<lparr>statusmsg := ''No selection to copy''\<rparr>)
      else
        let E1 = (editor_selection_normalize E0)\<lparr>clipboard := None\<rparr>;
            num_lines = sel_end_y E1 - sel_start_y E1 + 1
        in if num_lines \<le> 0 then Some (E1\<lparr>clipboard := None, clipboard_len := 0\<rparr>)
           else if \<not> alloc_ok E1
           then Some ((alloc_next E1)\<lparr>statusmsg := ''Error: Out of memory'', clipboard_len := 0\<rparr>)
           else
             let E2 = (alloc_next E1)\<lparr>clipboard_len := num_lines\<rparr>;
                 done = ''Copied '' @ show_int num_lines @ '' lines''
             in if num_lines = 1 then
                  (if sel_start_y E2 < 0 \<or> sel_start_y E2 \<ge> numrows E2 then None
                   else
                     (case read_ptr (chars (row_at E2 (sel_start_y E2)), sel_start_x E2)
                             (sel_end_x E2 - sel_start_x E2) of
                        None \<Rightarrow> None
                      | Some l \<Rightarrow> Some (E2\<lparr>clipboard := Some [Some l], statusmsg := done\<rparr>)))
                else
                  (case copy_lines E2 num_lines [0 ..< nat num_lines] of
                     None \<Rightarrow> None
                   | Some ls \<Rightarrow> Some (E2\<lparr>clipboard := Some ls, statusmsg := done\<rparr>)))"

text \<open>The loop \<^verbatim>\<open>for (j = 0; line[j] != '\0'; j++) editor_insert_char(line[j])\<close>.\<close>

fun insert_chars :: "string \<Rightarrow> editor_config \<Rightarrow> editor_config option" where
  "insert_chars [] E = Some E"
| "insert_chars (c # cs) E =
     (case editor_insert_char c E of None \<Rightarrow> None | Some E1 \<Rightarrow> insert_chars cs E1)"

text \<open>The multi-line loop of \<^verbatim>\<open>editor_paste\<close>, over the clipboard lines still to paste.\<close>

fun paste_lines :: "string option list \<Rightarrow> editor_config \<Rightarrow> editor_config option" where
  "paste_lines [] E = Some E"
| "paste_lines (l # ls) E =
     (case l of
        None \<Rightarrow> None
      | Some line \<Rightarrow>
          (case insert_chars (c_str line) E of
             None \<Rightarrow> None
           | Some E1 \<Rightarrow>
               if ls \<noteq> [] then
                 (case editor_insert_newline E1 of None \<Rightarrow> None | Some E2 \<Rightarrow> paste_lines ls E2)
               else Some E1))"

definition editor_paste :: "editor_config \<Rightarrow> editor_config option" where
  "editor_paste E =
     (case clipboard E of
        None \<Rightarrow> Some (E\<lparr>statusmsg := ''Nothing to paste''\<rparr>)
      | Some ls \<Rightarrow>
          if clipboard_len E = 0 then Some (E\<lparr>statusmsg := ''Nothing to paste''\<rparr>)
          else if int (length ls) < clipboard_len E then None
          else
            (case (if clipboard_len E = 1
                   then (case hd ls of None \<Rightarrow> None | Some line \<Rightarrow> insert_chars (c_str line) E)
                   else paste_lines (take (nat (clipboard_len E)) ls) E) of
               None \<Rightarrow> None
             | Some E1 \<Rightarrow>
                 Some (E1\<lparr>statusmsg := ''Pasted '' @ show_int (clipboard_len E1) @ '' lines''\<rparr>)))"

text \<open>
  The branch \<^verbatim>\<open>case 'd'\<close> of \<^verbatim>\<open>MODE_SELECTION\<close> in \<^verbatim>\<open>editor_process_keypress\<close>:
  delete the selection. The rows between are deleted by \<^verbatim>\<open>editor_del_row\<close>, from the
  last row of the selection down to the one after the first.
\<close>

fun del_rows_down :: "nat \<Rightarrow> int \<Rightarrow> editor_config \<Rightarrow> editor_config option" where
  "del_rows_down 0 i E = Some E"
| "del_rows_down (Suc n) i E =
     (case editor_del_row i E of None \<Rightarrow> None | Some E1 \<Rightarrow> del_rows_down n (i - 1) E1)"

definition keypress_selection_d :: "editor_config \<Rightarrow> editor_config option" where
  "keypress_selection_d E0 =
     do {
       E1 \<leftarrow> editor_copy_selection E0;
       let E = editor_selection_normalize E1;
       let sx = sel_start_x E; let sy = sel_start_y E;
       let ex = sel_end_x E; let ey = sel_end_y E;
       let finish = (\<lambda>E'. editor_selection_clear (E'\<lparr>dirty := dirty E' + 1, mode := MODE_NORMAL\<rparr>));
       if sy < 0 \<or> sy \<ge> numrows E then None
       else if sy = ey then
         do {
           let r = row_at E sy;
           b \<leftarrow> chars r;
           b' \<leftarrow> memmove b sx ex (rsize r - ex + 1);
           Some (finish ((set_row E sy \<lparr>rsize = rsize r - (ex - sx), chars = Some b'\<rparr>)
                           \<lparr>cx := sx, cy := sy\<rparr>))
         }
       else
         do {
           b \<leftarrow> chars (row_at E sy);
           b0 \<leftarrow> mem_write b sx [CHR 0x00];
           let Ea = set_row E sy \<lparr>rsize = sx, chars = Some b0\<rparr>;
           if ey < 0 \<or> ey \<ge> numrows Ea then None
           else do {
             let end_row = row_at Ea ey;
             let end_len = rsize end_row - ex;
             (ok, Eb) \<leftarrow> alloc_req (sx + end_len + 1) Ea;
             if \<not> ok then Some (Eb\<lparr>statusmsg := ''Memory allocation failed''\<rparr>)
             else do {
               src \<leftarrow> read_ptr (chars end_row, ex) end_len;
               bs1 \<leftarrow> mem_write (resize (sx + end_len + 1) (Some b0)) sx (map Some src);
               bs2 \<leftarrow> mem_write bs1 (sx + end_len) [Some (CHR 0x00)];
               b1 \<leftarrow> freeze bs2;
               let Ec = set_row Eb sy \<lparr>rsize = sx + end_len, chars = Some b1\<rparr>;
               Ed \<leftarrow> del_rows_down (nat (ey - sy)) ey Ec;
               Some (finish (Ed\<lparr>cx := sx, cy := sy\<rparr>))
             }
           }
         }
     }"

section \<open>Cursor movement\<close>

text \<open>
  The keys of \<^verbatim>\<open>editor_move_cursor\<close>. The source switches on \<^verbatim>\<open>int\<close> key codes, the
  \<^verbatim>\<open>KEY_*\<close> ones from \<^verbatim>\<open>ncurses.h\<close>; each constructor stands for one group of
  \<^verbatim>\<open>case\<close> labels, \<open>Key_other\<close> for every key the switch has no label for.
\<close>

datatype move_key =
  Key_left | Key_right | Key_up | Key_down | Key_home | Key_end | Key_ppage | Key_npage
  | Key_other

text \<open>
  \<^verbatim>\<open>while (times--) if (E.cy > 0) E.cy--;\<close> and its counterpart of page down, for
  \<^verbatim>\<open>times = E.screenrows\<close>, which \<^verbatim>\<open>init_editor\<close> makes at least 3.
\<close>

fun page_up_loop :: "nat \<Rightarrow> int \<Rightarrow> int" where
  "page_up_loop 0 y = y"
| "page_up_loop (Suc n) y = page_up_loop n (if y > 0 then y - 1 else y)"

fun page_down_loop :: "nat \<Rightarrow> int \<Rightarrow> int \<Rightarrow> int" where
  "page_down_loop 0 n y = y"
| "page_down_loop (Suc k) n y = page_down_loop k n (if y < n - 1 then y + 1 else y)"

text \<open>Clamp \<^verbatim>\<open>E.cx\<close> to the size of row \<^verbatim>\<open>E.cy\<close>, as after a vertical move.\<close>

definition clamp_cx :: "editor_config \<Rightarrow> editor_config" where
  "clamp_cx E = (if cx E > row_size E (cy E) then E\<lparr>cx := row_size E (cy E)\<rparr> else E)"

definition editor_move_cursor :: "move_key \<Rightarrow> editor_config \<Rightarrow> editor_config option" where
  "editor_move_cursor key E =
     map_option (\<lambda>E'. if mode E' = MODE_SELECTION then editor_selection_update E' else E')
       (let has_row = (cy E < numrows E)
        in case key of
             Key_left \<Rightarrow>
               (if cx E > 0 then Some (E\<lparr>cx := cx E - 1\<rparr>)
                else if cy E > 0 then
                  (if cy E - 1 \<ge> numrows E then None
                   else Some (E\<lparr>cy := cy E - 1, cx := row_size E (cy E - 1)\<rparr>))
                else Some E)
           | Key_right \<Rightarrow>
               (if has_row \<and> cy E < 0 then None
                else if has_row \<and> cx E < row_size E (cy E) then Some (E\<lparr>cx := cx E + 1\<rparr>)
                else if has_row \<and> cx E = row_size E (cy E) \<and> cy E < numrows E - 1
                then Some (E\<lparr>cy := cy E + 1, cx := 0\<rparr>)
                else Some E)
           | Key_up \<Rightarrow>
               (if cy E > 0 then
                  (if cy E - 1 \<ge> numrows E then None else Some (clamp_cx (E\<lparr>cy := cy E - 1\<rparr>)))
                else Some E)
           | Key_down \<Rightarrow>
               (if cy E < numrows E - 1 then
                  (if cy E + 1 < 0 then None else Some (clamp_cx (E\<lparr>cy := cy E + 1\<rparr>)))
                else Some E)
           | Key_home \<Rightarrow> Some (E\<lparr>cx := 0\<rparr>)
           | Key_end \<Rightarrow>
               (if has_row then (if cy E < 0 then None else Some (E\<lparr>cx := row_size E (cy E)\<rparr>))
                else Some E)
           | Key_ppage \<Rightarrow>
               (let E1 = E\<lparr>cy := page_up_loop (nat (screenrows E)) (rowoff E)\<rparr>
                in if cy E1 < numrows E1 then (if cy E1 < 0 then None else Some (clamp_cx E1))
                   else Some E1)
           | Key_npage \<Rightarrow>
               (let y0 = rowoff E + screenrows E - 1;
                    y1 = (if y0 \<ge> numrows E then numrows E - 1 else y0);
                    E1 = E\<lparr>cy := page_down_loop (nat (screenrows E)) (numrows E) y1\<rparr>
                in if cy E1 < numrows E1 then (if cy E1 < 0 then None else Some (clamp_cx E1))
                   else Some E1)
           | Key_other \<Rightarrow> Some E)"

section \<open>Start-up state\<close>

text \<open>
  \<^verbatim>\<open>init_editor\<close>, for a terminal of \<open>rows\<close> lines (\<^verbatim>\<open>getmaxyx\<close>): no rows, cursor at
  the origin, both stacks and the clipboard empty, no selection.
\<close>

definition init_editor :: "int \<Rightarrow> editor_config" where
  "init_editor rows =
     \<lparr>cx = 0, cy = 0, rowoff = 0,
      screenrows = (let r = (if rows < 3 then 1 else rows - 2) in if r < 3 then 3 else r),
      row = [], dirty = 0,
      statusmsg = ''HELP: cc = insert | Ctrl+Z = undo | Ctrl+Y = redo | Ctrl+A = select all'',
      mode = MODE_NORMAL, clipboard = None, clipboard_len = 0,
      sel_start_x = -1, sel_start_y = -1, sel_end_x = -1, sel_end_y = -1, selecting = False,
      undo_stack = [], redo_stack = [], allocs = []\<rparr>"

text \<open>
  The row \<^verbatim>\<open>editor_insert_row\<close> builds from the bytes \<open>s\<close>: their number, and a block of
  these bytes and the terminating NUL.
\<close>

definition erow_of :: "string \<Rightarrow> erow" where
  "erow_of s = \<lparr>rsize = int (length s), chars = Some (terminated s)\<rparr>"

text \<open>A buffer holding the rows \<open>rs\<close> with the cursor at column \<open>x\<close> of row \<open>y\<close>.\<close>

definition buffer :: "string list \<Rightarrow> int \<Rightarrow> int \<Rightarrow> editor_config" where
  "buffer rs x y = (init_editor 24)\<lparr>row := map erow_of rs, cx := x, cy := y\<rparr>"

section \<open>Notions used by the properties\<close>

text \<open>
  The content of a row: the first \<^verbatim>\<open>size\<close> bytes of its block. A row is well formed when
  its block holds these bytes and at least one more, the place of the terminator.
\<close>

definition line_of :: "erow \<Rightarrow> string" where
  "line_of r = take (nat (rsize r)) (case chars r of None \<Rightarrow> [] | Some b \<Rightarrow> b)"

definition lines_of :: "editor_config \<Rightarrow> string list" where
  "lines_of E = map line_of (row E)"

definition row_ok :: "erow \<Rightarrow> bool" where
  "row_ok r = (case chars r of None \<Rightarrow> False | Some b \<Rightarrow> 0 \<le> rsize r \<and> rsize r < int (length b))"

text \<open>
  The buffer invariant of the data model: the cursor row is between \<open>0\<close> and
  \<^verbatim>\<open>numrows\<close>, and on an existing row the column is between \<open>0\<close> and the row's size.
\<close>

definition buffer_invariant :: "editor_config \<Rightarrow> bool" where
  "buffer_invariant E =
     (0 \<le> cy E \<and> cy E \<le> numrows E
      \<and> (if cy E < numrows E then 0 \<le> cx E \<and> cx E \<le> row_size E (cy E) else True))"

text \<open>
  The five kinds of edit, each by the edit-engine function that performs it; a row is
  inserted from the NUL-terminated block of its bytes.
\<close>

datatype edit = InsertChar char | DeleteChar | Newline | InsertLine int string | DeleteLine int

fun apply_edit :: "edit \<Rightarrow> editor_config \<Rightarrow> editor_config option" where
  "apply_edit (InsertChar c) E = editor_insert_char c E"
| "apply_edit DeleteChar E = editor_del_char E"
| "apply_edit Newline E = editor_insert_newline E"
| "apply_edit (InsertLine at s) E =
     editor_insert_row at (Some (terminated s), 0) (int (length s)) E"
| "apply_edit (DeleteLine at) E = editor_del_row at E"

fun apply_edits :: "edit list \<Rightarrow> editor_config \<Rightarrow> editor_config option" where
  "apply_edits [] E = Some E"
| "apply_edits (e # es) E =
     (case apply_edit e E of None \<Rightarrow> None | Some E1 \<Rightarrow> apply_edits es E1)"

fun undo_times :: "nat \<Rightarrow> editor_config \<Rightarrow> editor_config option" where
  "undo_times 0 E = Some E"
| "undo_times (Suc n) E =
     (case editor_undo E of None \<Rightarrow> None | Some E1 \<Rightarrow> undo_times n E1)"

text \<open>Apply the edits, then undo once per edit.\<close>

definition edit_then_undo :: "edit list \<Rightarrow> editor_config \<Rightarrow> editor_config option" where
  "edit_then_undo es E =
     (case apply_edits es E of None \<Rightarrow> None | Some E1 \<Rightarrow> undo_times (length es) E1)"

text \<open>
  The cursor is inside an existing, well-formed row; a character edit that takes effect
  there (a deletion has a character to its left).
\<close>

definition cursor_in_row :: "editor_config \<Rightarrow> bool" where
  "cursor_in_row E =
     (0 \<le> cy E \<and> cy E < numrows E \<and> 0 \<le> cx E \<and> cx E \<le> row_size E (cy E)
      \<and> row_ok (row_at E (cy E)))"

fun edit_in_row :: "edit \<Rightarrow> editor_config \<Rightarrow> bool" where
  "edit_in_row (InsertChar c) E = cursor_in_row E"
| "edit_in_row DeleteChar E = (cursor_in_row E \<and> 0 < cx E)"
| "edit_in_row Newline E = False"
| "edit_in_row (InsertLine at s) E = False"
| "edit_in_row (DeleteLine at) E = False"

fun edits_in_row :: "edit list \<Rightarrow> editor_config \<Rightarrow> bool" where
  "edits_in_row [] E = True"
| "edits_in_row (e # es) E =
     (edit_in_row e E
      \<and> (case apply_edit e E of None \<Rightarrow> False | Some E1 \<Rightarrow> edits_in_row es E1))"

text \<open>
  An edit that takes effect: a character edit or a newline inside an existing row, a
  row inserted at a position within \<open>0..numrows\<close>, a well-formed row deleted.
\<close>

fun edit_takes_effect :: "edit \<Rightarrow> editor_config \<Rightarrow> bool" where
  "edit_takes_effect (InsertChar c) E = cursor_in_row E"
| "edit_takes_effect DeleteChar E = (cursor_in_row E \<and> 0 < cx E)"
| "edit_takes_effect Newline E = cursor_in_row E"
| "edit_takes_effect (InsertLine at s) E = (0 \<le> at \<and> at \<le> numrows E)"
| "edit_takes_effect (DeleteLine at) E = (0 \<le> at \<and> at < numrows E \<and> row_ok (row_at E at))"

text \<open>
  A sequence whose first edit takes effect and whose further edits are character edits
  inside a row.
\<close>

fun first_then_in_row :: "edit list \<Rightarrow> editor_config \<Rightarrow> bool" where
  "first_then_in_row [] E = True"
| "first_then_in_row (e # es) E =
     (edit_takes_effect e E
      \<and> (case apply_edit e E of None \<Rightarrow> False | Some E1 \<Rightarrow> edits_in_row es E1))"

text \<open>
  The cursor column and row that the undo of the edits leaves: the position recorded by
  the first edit. For a deleted character that is the column of the character, for a
  row operation column 0 of the row.
\<close>

fun undone_cx :: "edit list \<Rightarrow> editor_config \<Rightarrow> int" where
  "undone_cx (DeleteChar # es) E = cx E - 1"
| "undone_cx (InsertLine at s # es) E = 0"
| "undone_cx (DeleteLine at # es) E = 0"
| "undone_cx es E = cx E"

fun undone_cy :: "edit list \<Rightarrow> editor_config \<Rightarrow> int" where
  "undone_cy (InsertLine at s # es) E = at"
| "undone_cy (DeleteLine at # es) E = at"
| "undone_cy es E = cy E"

text \<open>\<open>new\<close> is \<open>old\<close> with exactly one operation pushed.\<close>

definition pushed_one :: "operation list \<Rightarrow> operation list \<Rightarrow> bool" where
  "pushed_one old new = (new \<noteq> [] \<and> tl new = old)"

text \<open>
  The state after typing \<open>x\<close> at the start of the row "abc", undoing it, and selecting
  the first two characters in selection mode: the redo stack holds the undone insert.
\<close>

definition selection_in_row :: editor_config where
  "selection_in_row =
     (buffer [''abc''] 2 0)
       \<lparr>mode := MODE_SELECTION, sel_start_x := 0, sel_start_y := 0, sel_end_x := 2,
        sel_end_y := 0, selecting := True,
        redo_stack := [\<lparr>op_type = OP_INSERT_CHAR, op_cx = 0, op_cy = 0, op_c = CHR ''x'',
                        op_line = None, op_line_size = 0\<rparr>]\<rparr>"

text \<open>The same on three rows, with the selection from column 1 of row 0 to column 2 of row 2.\<close>

definition selection_over_rows :: editor_config where
  "selection_over_rows =
     (buffer [''abc'', ''def'', ''ghi''] 2 0)
       \<lparr>mode := MODE_SELECTION, sel_start_x := 1, sel_start_y := 0, sel_end_x := 2,
        sel_end_y := 2, selecting := True,
        redo_stack := [\<lparr>op_type = OP_INSERT_CHAR, op_cx = 0, op_cy = 0, op_c = CHR ''x'',
                        op_line = None, op_line_size = 0\<rparr>]\<rparr>"

text \<open>
  The cursor is on an existing, well-formed row and at most one column behind its end,
  on the row's terminator: the columns at which the character functions stay inside
  the row's block.
\<close>

definition cursor_near_row :: "editor_config \<Rightarrow> bool" where
  "cursor_near_row E =
     (0 \<le> cy E \<and> cy E < numrows E \<and> 0 \<le> cx E \<and> cx E \<le> row_size E (cy E) + 1
      \<and> row_ok (row_at E (cy E)))"

text \<open>
  The cursor one column behind the end of row 0, on the terminator of the row (the
  column at which delete-char at column 0 of row 1 of the rows "ab", "c" leaves it),
  with an operation on the redo stack.
\<close>

definition cursor_on_terminator :: editor_config where
  "cursor_on_terminator =
     (buffer [''c'', ''c''] 2 0)
       \<lparr>redo_stack := [\<lparr>op_type = OP_INSERT_CHAR, op_cx = 0, op_cy = 0, op_c = CHR ''x'',
                        op_line = None, op_line_size = 0\<rparr>]\<rparr>"

section \<open>Basic facts\<close>

lemma alloc_ok_nil: "allocs E = [] \<Longrightarrow> alloc_ok E"
  by (simp add: alloc_ok_def)

lemma alloc_next_nil: "allocs E = [] \<Longrightarrow> alloc_next E = E"
  by (simp add: alloc_next_def)

lemma alloc_req_nil:
  "allocs E = [] \<Longrightarrow> alloc_req n E = (if 0 < n then Some (True, E) else None)"
  by (simp add: alloc_req_def alloc_ok_nil alloc_next_nil)

lemma alloc_req_allocs:
  "alloc_req n E = Some (ok, E') \<Longrightarrow> allocs E = [] \<Longrightarrow> ok \<and> E' = E"
  by (simp add: alloc_req_nil split: if_splits)

lemma push_operation_null:
  "push_operation st ty x y c (None, 0) n
     = Some (\<lparr>op_type = ty, op_cx = x, op_cy = y, op_c = c, op_line = None,
               op_line_size = n\<rparr> # st)"
  by (simp add: push_operation_def is_null_def)

lemma push_operation_tl:
  "push_operation st ty x y c line n = Some st' \<Longrightarrow> st' \<noteq> [] \<and> tl st' = st"
  by (auto simp: push_operation_def split: if_splits option.splits)

subsection \<open>Bytes of a block\<close>

lemma mem_read_nat:
  "0 < k \<Longrightarrow> i + k \<le> length b \<Longrightarrow> mem_read b (int i) (int k) = Some (take k (drop i b))"
  by (simp add: mem_read_def)

lemma mem_write_nat:
  "i + length xs \<le> length b \<Longrightarrow>
     mem_write b (int i) xs = Some (take i b @ xs @ drop (i + length xs) b)"
  by (simp add: mem_write_def)

lemma memmove_nat:
  assumes "i + k \<le> length b" and "j + k \<le> length b"
  shows "memmove b (int j) (int i) (int k) = Some (take j b @ take k (drop i b) @ drop (j + k) b)"
proof (cases "k = 0")
  case True
  then show ?thesis by (simp add: memmove_def mem_read_def mem_write_def)
next
  case False
  with assms show ?thesis
    by (simp add: memmove_def mem_read_nat mem_write_nat)
qed

lemma read_ptr_terminated:
  "read_ptr (Some (terminated s), 0) (int (length s)) = Some s"
  by (simp add: read_ptr_def mem_read_def terminated_def)

lemma push_operation_terminated:
  "push_operation st ty x y c (Some (terminated s), 0) (int (length s))
     = Some (\<lparr>op_type = ty, op_cx = x, op_cy = y, op_c = c,
               op_line = (if s = [] then None else Some s),
               op_line_size = int (length s)\<rparr> # st)"
  by (simp add: push_operation_def is_null_def read_ptr_terminated)

text \<open>A well-formed row, by its block.\<close>

lemma row_okE:
  assumes "row_ok r"
  obtains b where "chars r = Some b" and "0 \<le> rsize r" and "nat (rsize r) < length b"
    and "line_of r = take (nat (rsize r)) b"
  using assms by (auto simp: row_ok_def line_of_def split: option.splits)

lemma row_ok_erow_of [simp]: "row_ok (erow_of s)"
  by (simp add: row_ok_def erow_of_def terminated_def)

lemma line_of_erow_of [simp]: "line_of (erow_of s) = s"
  by (simp add: line_of_def erow_of_def terminated_def)

lemma length_line_of: "row_ok r \<Longrightarrow> int (length (line_of r)) = rsize r"
  by (erule row_okE) simp

text \<open>Inserting a byte into a well-formed row, at a column inside it.\<close>

lemma row_insert_byte_ok:
  assumes ok: "row_ok r" and x: "0 \<le> x" "x \<le> rsize r"
  shows "\<exists>r'. row_insert_byte r x c = Some r' \<and> row_ok r' \<and> rsize r' = rsize r + 1
               \<and> line_of r' = take (nat x) (line_of r) @ [c] @ drop (nat x) (line_of r)"
proof -
  from ok obtain b where b: "chars r = Some b" "0 \<le> rsize r" "nat (rsize r) < length b"
    "line_of r = take (nat (rsize r)) b"
    by (rule row_okE)
  define n where "n = nat (rsize r)"
  define i where "i = nat x"
  have n: "rsize r = int n" "x = int i" "i \<le> n" "n < length b"
    using b x by (simp_all add: n_def i_def)
  define bs where "bs = resize (rsize r + 2) (chars r)"
  have bs: "bs = map Some (take (n + 2) b) @ replicate (n + 2 - length b) None"
    using n by (simp add: bs_def resize_def b(1) nat_add_distrib take_map)
  have len: "length bs = n + 2" using n by (simp add: bs)
  have pre: "take (Suc n) bs = map Some (take (Suc n) b)"
    using n by (simp add: bs take_map)
  have rd: "take (n - i + 1) (drop i bs) = map Some (take (n - i + 1) (drop i b))"
  proof -
    have "take (n - i + 1) (drop i bs) = drop i (take (Suc n) bs)"
      using n by (simp add: drop_take Suc_diff_le)
    also have "\<dots> = map Some (drop i (take (Suc n) b))" by (simp add: pre drop_map)
    also have "\<dots> = map Some (take (n - i + 1) (drop i b))"
      using n by (simp add: drop_take Suc_diff_le)
    finally show ?thesis .
  qed
  have hd_bs: "take i bs = map Some (take i b)"
  proof -
    have "take i bs = take i (take (Suc n) bs)" using n by simp
    also have "\<dots> = map Some (take i b)" using n by (simp add: pre take_map)
    finally show ?thesis .
  qed
  define bs1 where "bs1 = take (i + 1) bs @ take (n - i + 1) (drop i bs) @ drop (n + 2) bs"
  have mv: "memmove bs (x + 1) x (rsize r - x + 1) = Some bs1"
  proof -
    have mm: "memmove bs (int (i + 1)) (int i) (int (n - i + 1)) = Some bs1"
      unfolding bs1_def using n len
      by (subst memmove_nat) simp_all
    have "memmove bs (x + 1) x (rsize r - x + 1)
            = memmove bs (int (i + 1)) (int i) (int (n - i + 1))"
      using n by (simp add: algebra_simps)
    with mm show ?thesis by simp
  qed
  have len1: "length bs1 = n + 2" using n len by (simp add: bs1_def)
  have bs1': "bs1 = take (i + 1) bs @ map Some (take (n - i + 1) (drop i b))"
    using len rd by (simp add: bs1_def)
  define bs2 where "bs2 = take i bs1 @ [Some c] @ drop (i + 1) bs1"
  have wr: "mem_write bs1 x [Some c] = Some bs2"
    using n len1 mem_write_nat [of i "[Some c]" bs1] by (simp add: bs2_def)
  have bs2': "bs2 = map Some (take i b @ [c] @ take (n - i + 1) (drop i b))"
    using n len hd_bs by (simp add: bs2_def bs1' min_def)
  define b' where "b' = take i b @ [c] @ take (n - i + 1) (drop i b)"
  have fr: "freeze bs2 = Some b'"
    by (auto simp: freeze_def bs2' b'_def comp_def)
  have res: "row_insert_byte r x c = Some \<lparr>rsize = rsize r + 1, chars = Some b'\<rparr>"
    using mv wr fr by (simp add: row_insert_byte_def bs_def [symmetric])
  have lb': "length b' = n + 2" using n by (simp add: b'_def)
  have "take (Suc n) b' = take i (take n b) @ [c] @ drop i (take n b)"
    using n by (simp add: b'_def drop_take min_def Suc_diff_le)
  moreover have "nat (rsize r + 1) = Suc n" "nat x = i" "nat (rsize r) = n"
    by (simp_all add: n_def i_def b(2) nat_add_distrib)
  moreover have "line_of \<lparr>rsize = rsize r + 1, chars = Some b'\<rparr> = take (nat (rsize r + 1)) b'"
    by (simp add: line_of_def)
  ultimately have "line_of \<lparr>rsize = rsize r + 1, chars = Some b'\<rparr>
               = take (nat x) (line_of r) @ [c] @ drop (nat x) (line_of r)"
    by (simp only: b(4))
  moreover have "row_ok \<lparr>rsize = rsize r + 1, chars = Some b'\<rparr>"
    using n lb' by (simp add: row_ok_def)
  ultimately show ?thesis using res by simp
qed

text \<open>Removing the byte at a column inside a well-formed row.\<close>

lemma row_remove_byte_ok:
  assumes ok: "row_ok r" and b: "chars r = Some b" and x: "0 \<le> x" "x < rsize r"
  shows "\<exists>b'. memmove b x (x + 1) (rsize r - x) = Some b'
               \<and> mem_read b x 1 = Some [line_of r ! nat x]
               \<and> row_ok \<lparr>rsize = rsize r - 1, chars = Some b'\<rparr>
               \<and> line_of \<lparr>rsize = rsize r - 1, chars = Some b'\<rparr>
                   = take (nat x) (line_of r) @ drop (nat x + 1) (line_of r)"
proof -
  from ok b have r: "0 \<le> rsize r" "nat (rsize r) < length b"
    "line_of r = take (nat (rsize r)) b"
    by (auto elim: row_okE)
  define n where "n = nat (rsize r)"
  define i where "i = nat x"
  have n: "rsize r = int n" "x = int i" "i < n" "n < length b"
    using r x by (simp_all add: n_def i_def)
  define b' where "b' = take i b @ take (n - i) (drop (i + 1) b) @ drop n b"
  have mm: "memmove b (int i) (int (i + 1)) (int (n - i)) = Some b'"
    unfolding b'_def using n by (subst memmove_nat) simp_all
  have "memmove b x (x + 1) (rsize r - x) = memmove b (int i) (int (i + 1)) (int (n - i))"
    using n by (simp add: algebra_simps)
  with mm have mv: "memmove b x (x + 1) (rsize r - x) = Some b'" by simp
  have rd: "mem_read b x 1 = Some [line_of r ! nat x]"
  proof -
    have "mem_read b (int i) (int 1) = Some (take 1 (drop i b))"
      using n by (intro mem_read_nat) simp_all
    moreover have "take 1 (drop i b) = [b ! i]"
      using n by (simp add: take_Suc_conv_app_nth)
    moreover have "line_of r ! nat x = b ! i" using n r(3) by (simp add: i_def)
    ultimately show ?thesis using n by simp
  qed
  have lb': "length b' = length b" using n by (simp add: b'_def)
  have nn: "nat (rsize r - 1) = n - 1" "nat (rsize r) = n" "nat x = i"
    using n by simp_all
  have "take (n - 1) b' = take i (take n b) @ drop (i + 1) (take n b)"
  proof -
    have m: "min (length b) i = i" "min (length b - Suc i) (n - i) = n - i"
      "n - Suc 0 - i \<le> n - i"
      using n by simp_all
    have "take (n - 1) b' = take i b @ take (n - 1 - i) (take (n - i) (drop (i + 1) b))"
      using n m by (simp add: b'_def)
    also have "\<dots> = take i b @ take (n - 1 - i) (drop (i + 1) b)"
      by (simp add: min_def)
    also have "\<dots> = take i (take n b) @ drop (i + 1) (take n b)"
      using n by (simp add: drop_take min_def)
    finally show ?thesis .
  qed
  moreover have "line_of \<lparr>rsize = rsize r - 1, chars = Some b'\<rparr> = take (n - 1) b'"
    by (simp add: line_of_def nn)
  ultimately have ln: "line_of \<lparr>rsize = rsize r - 1, chars = Some b'\<rparr>
                   = take (nat x) (line_of r) @ drop (nat x + 1) (line_of r)"
    by (simp only: nn r(3))
  have "row_ok \<lparr>rsize = rsize r - 1, chars = Some b'\<rparr>"
    using n lb' by (simp add: row_ok_def)
  with mv rd ln show ?thesis by blast
qed

subsection \<open>Character edits inside a row\<close>

text \<open>The cursor is on a well-formed row and inside it.\<close>

lemma insert_char_ok:
  assumes al: "allocs E = []"
    and y: "0 \<le> cy E" "cy E < numrows E"
    and x: "0 \<le> cx E" "cx E \<le> row_size E (cy E)"
    and ok: "row_ok (row_at E (cy E))"
  shows "\<exists>r'. editor_insert_char c E
                 = Some (E\<lparr>undo_stack := \<lparr>op_type = OP_INSERT_CHAR, op_cx = cx E, op_cy = cy E,
                                            op_c = c, op_line = None, op_line_size = 0\<rparr>
                                          # undo_stack E,
                           row := (row E)[nat (cy E) := r'],
                           cx := cx E + 1, dirty := dirty E + 1, redo_stack := []\<rparr>)
              \<and> row_ok r' \<and> rsize r' = row_size E (cy E) + 1
              \<and> line_of r' = take (nat (cx E)) (line_of (row_at E (cy E))) @ [c]
                               @ drop (nat (cx E)) (line_of (row_at E (cy E)))"
proof -
  from row_insert_byte_ok [OF ok x(1), of c] x(2)
  obtain r' where r': "row_insert_byte (row_at E (cy E)) (cx E) c = Some r'" "row_ok r'"
    "rsize r' = row_size E (cy E) + 1"
    "line_of r' = take (nat (cx E)) (line_of (row_at E (cy E))) @ [c]
                    @ drop (nat (cx E)) (line_of (row_at E (cy E)))"
    by (auto simp: row_size_def)
  from ok have "0 \<le> row_size E (cy E)" by (auto simp: row_size_def elim: row_okE)
  then have req: "0 < row_size E (cy E) + 2" by simp
  have "editor_insert_char c E
          = Some (E\<lparr>undo_stack := \<lparr>op_type = OP_INSERT_CHAR, op_cx = cx E, op_cy = cy E,
                                     op_c = c, op_line = None, op_line_size = 0\<rparr>
                                   # undo_stack E,
                    row := (row E)[nat (cy E) := r'],
                    cx := cx E + 1, dirty := dirty E + 1, redo_stack := []\<rparr>)"
    using al y req r'(1)
    by (simp add: editor_insert_char_def push_operation_null alloc_req_nil set_row_def
          numrows_def row_at_def row_size_def)
  with r'(2-4) show ?thesis by blast
qed

lemma del_char_ok:
  assumes y: "0 \<le> cy E" "cy E < numrows E"
    and x: "0 < cx E" "cx E \<le> row_size E (cy E)"
    and ok: "row_ok (row_at E (cy E))"
  shows "\<exists>r'. editor_del_char E
                 = Some (E\<lparr>row := (row E)[nat (cy E) := r'],
                           undo_stack := \<lparr>op_type = OP_DELETE_CHAR, op_cx = cx E - 1,
                                            op_cy = cy E,
                                            op_c = line_of (row_at E (cy E)) ! nat (cx E - 1),
                                            op_line = None, op_line_size = 0\<rparr>
                                          # undo_stack E,
                           cx := cx E - 1, dirty := dirty E + 1, redo_stack := []\<rparr>)
              \<and> row_ok r' \<and> rsize r' = row_size E (cy E) - 1
              \<and> line_of r' = take (nat (cx E - 1)) (line_of (row_at E (cy E)))
                               @ drop (nat (cx E)) (line_of (row_at E (cy E)))"
proof -
  let ?r = "row_at E (cy E)"
  from ok obtain b where b: "chars ?r = Some b" by (rule row_okE)
  have x': "0 \<le> cx E - 1" "cx E - 1 < rsize ?r" using x by (simp_all add: row_size_def)
  from row_remove_byte_ok [OF ok b x']
  obtain b' where b': "memmove b (cx E - 1) (cx E) (rsize ?r - cx E + 1) = Some b'"
    "mem_read b (cx E - 1) 1 = Some [line_of ?r ! nat (cx E - 1)]"
    "row_ok \<lparr>rsize = rsize ?r - 1, chars = Some b'\<rparr>"
    "line_of \<lparr>rsize = rsize ?r - 1, chars = Some b'\<rparr>
       = take (nat (cx E - 1)) (line_of ?r) @ drop (nat (cx E - 1) + 1) (line_of ?r)"
    by (auto simp: algebra_simps)
  have nx: "nat (cx E - 1) + 1 = nat (cx E)" using x by simp
  have "editor_del_char E
          = Some (E\<lparr>row := (row E)[nat (cy E) := \<lparr>rsize = rsize ?r - 1, chars = Some b'\<rparr>],
                    undo_stack := \<lparr>op_type = OP_DELETE_CHAR, op_cx = cx E - 1, op_cy = cy E,
                                     op_c = line_of ?r ! nat (cx E - 1),
                                     op_line = None, op_line_size = 0\<rparr>
                                   # undo_stack E,
                    cx := cx E - 1, dirty := dirty E + 1, redo_stack := []\<rparr>)"
    using y x b b'(1,2)
    by (simp add: editor_del_char_def push_operation_null set_row_def Let_def)
  with b'(3,4) nx show ?thesis
    by (intro exI [of _ "\<lparr>rsize = rsize ?r - 1, chars = Some b'\<rparr>"]) (simp add: row_size_def)
qed

lemma length_lines_of [simp]: "length (lines_of E) = length (row E)"
  by (simp add: lines_of_def)

lemma nth_lines_of: "i < length (row E) \<Longrightarrow> lines_of E ! i = line_of (row E ! i)"
  by (simp add: lines_of_def)

lemma lines_of_same_length: "lines_of E' = lines_of E \<Longrightarrow> length (row E') = length (row E)"
  by (metis length_lines_of)

text \<open>Removing the character just inserted, and inserting the one just removed.\<close>

lemma remove_inserted:
  assumes "n \<le> length r"
  shows "take n (take n r @ [c] @ drop n r) @ drop (Suc n) (take n r @ [c] @ drop n r) = r"
  using assms by simp

lemma insert_removed:
  assumes "0 < n" "n \<le> length r"
  shows "take (n - 1) (take (n - 1) r @ drop n r) @ [r ! (n - 1)]
           @ drop (n - 1) (take (n - 1) r @ drop n r) = r"
proof -
  from assms have "n - 1 < length r" by simp
  then have "take (n - 1) r @ r ! (n - 1) # drop (Suc (n - 1)) r = r"
    by (rule id_take_nth_drop [symmetric])
  with assms show ?thesis by simp
qed

lemma undo_insert_char_restores:
  assumes st: "undo_stack E2 = \<lparr>op_type = OP_INSERT_CHAR, op_cx = x, op_cy = y, op_c = c,
                                  op_line = None, op_line_size = 0\<rparr> # st"
    and y: "0 \<le> y" "y < numrows E2"
    and x: "0 \<le> x" "x \<le> int (length l)"
    and ok: "row_ok (row_at E2 y)"
    and ln: "line_of (row_at E2 y) = take (nat x) l @ [c] @ drop (nat x) l"
  shows "\<exists>E3 r'. editor_undo E2 = Some E3 \<and> row E3 = (row E2)[nat y := r'] \<and> row_ok r'
                 \<and> line_of r' = l \<and> cx E3 = x \<and> cy E3 = y \<and> undo_stack E3 = st
                 \<and> allocs E3 = allocs E2"
proof -
  let ?r = "row_at E2 y"
  from ok obtain b where b: "chars ?r = Some b" by (rule row_okE)
  have sz: "rsize ?r = int (length l) + 1"
    using length_line_of [OF ok] x by (simp add: ln)
  with x have x': "x < rsize ?r" by simp
  from row_remove_byte_ok [OF ok b x(1) x']
  obtain b' where b': "memmove b x (x + 1) (rsize ?r - x) = Some b'"
    "row_ok \<lparr>rsize = rsize ?r - 1, chars = Some b'\<rparr>"
    "line_of \<lparr>rsize = rsize ?r - 1, chars = Some b'\<rparr>
       = take (nat x) (line_of ?r) @ drop (nat x + 1) (line_of ?r)"
    by blast
  have nx: "nat x \<le> length l" using x by simp
  have restored: "line_of \<lparr>rsize = rsize ?r - 1, chars = Some b'\<rparr> = l"
    using remove_inserted [OF nx, of c] by (simp add: b'(3) ln)
  have "undo_insert_char (hd (undo_stack E2)) (E2\<lparr>undo_stack := st\<rparr>)
          = Some (E2\<lparr>undo_stack := st, cx := x, cy := y,
                     row := (row E2)[nat y := \<lparr>rsize = rsize ?r - 1, chars = Some b'\<rparr>],
                     dirty := dirty E2 + 1\<rparr>)"
    using st y x' b b'(1)
    by (simp add: undo_insert_char_def Let_def set_row_def numrows_def row_at_def)
  then have "\<exists>E3. editor_undo E2 = Some E3
                  \<and> row E3 = (row E2)[nat y := \<lparr>rsize = rsize ?r - 1, chars = Some b'\<rparr>]
                  \<and> cx E3 = x \<and> cy E3 = y \<and> undo_stack E3 = st \<and> allocs E3 = allocs E2"
    using st by (simp add: editor_undo_def push_redo_def push_operation_def is_null_def
          op_line_ptr_def)
  with b'(2) restored show ?thesis by blast
qed

lemma undo_delete_char_restores:
  assumes st: "undo_stack E2 = \<lparr>op_type = OP_DELETE_CHAR, op_cx = x, op_cy = y, op_c = c,
                                  op_line = None, op_line_size = 0\<rparr> # st"
    and y: "0 \<le> y" "y < numrows E2"
    and x: "0 \<le> x" "x \<le> rsize (row_at E2 y)"
    and ok: "row_ok (row_at E2 y)"
    and al: "allocs E2 = []"
  shows "\<exists>E3 r'. editor_undo E2 = Some E3 \<and> row E3 = (row E2)[nat y := r'] \<and> row_ok r'
                 \<and> line_of r' = take (nat x) (line_of (row_at E2 y)) @ [c]
                                  @ drop (nat x) (line_of (row_at E2 y))
                 \<and> cx E3 = x \<and> cy E3 = y \<and> undo_stack E3 = st \<and> allocs E3 = []"
proof -
  let ?r = "row_at E2 y"
  from row_insert_byte_ok [OF ok x, of c]
  obtain r' where r': "row_insert_byte ?r x c = Some r'" "row_ok r'"
    "line_of r' = take (nat x) (line_of ?r) @ [c] @ drop (nat x) (line_of ?r)"
    by blast
  from ok have "0 \<le> rsize ?r" by (rule row_okE)
  then have req: "0 < rsize ?r + 2" by simp
  have "undo_delete_char (hd (undo_stack E2)) (E2\<lparr>undo_stack := st\<rparr>)
          = Some (Inr (E2\<lparr>undo_stack := st, cx := x, cy := y,
                          row := (row E2)[nat y := r'], dirty := dirty E2 + 1\<rparr>))"
    using st y al req r'(1)
    by (simp add: undo_delete_char_def Let_def set_row_def numrows_def row_at_def
          row_size_def alloc_req_nil)
  then have "\<exists>E3. editor_undo E2 = Some E3 \<and> row E3 = (row E2)[nat y := r']
                  \<and> cx E3 = x \<and> cy E3 = y \<and> undo_stack E3 = st \<and> allocs E3 = []"
    using st al by (simp add: editor_undo_def push_redo_def push_operation_def is_null_def
          op_line_ptr_def)
  with r'(2,3) show ?thesis by blast
qed

lemma undo_times_snoc:
  "undo_times (Suc n) E = (case undo_times n E of None \<Rightarrow> None | Some E1 \<Rightarrow> editor_undo E1)"
proof (induction n arbitrary: E)
  case 0
  show ?case by (simp split: option.split)
next
  case (Suc n)
  show ?case
  proof (cases "editor_undo E")
    case None
    then show ?thesis by simp
  next
    case (Some E1)
    with Suc.IH [of E1] show ?thesis by simp
  qed
qed

lemma edit_then_undo_step:
  assumes "apply_edit e E = Some Ea" and "apply_edits es Ea = Some E1"
    and "undo_times (length es) E1 = Some E2" and "editor_undo E2 = Some E3"
  shows "apply_edits (e # es) E = Some E1 \<and> undo_times (length (e # es)) E1 = Some E3"
proof
  show "apply_edits (e # es) E = Some E1" using assms(1,2) by simp
  have "undo_times (Suc (length es)) E1 = Some E3"
    using assms(3,4) by (simp only: undo_times_snoc option.case)
  then show "undo_times (length (e # es)) E1 = Some E3" by simp
qed

text \<open>
  One edited row, the edits and undos behind it that gave its text back, and the undo
  that restores the row: the texts are those of the start, and every row that was well
  formed is so again.
\<close>

lemma restored_row:
  assumes rows_a: "row Ea = (row E)[nat y := ra]" and ra: "row_ok ra"
    and y: "nat y < length (row E)"
    and same: "lines_of E2 = lines_of Ea"
    and okp: "\<forall>i<length (row Ea). row_ok (row Ea ! i) \<longrightarrow> row_ok (row E2 ! i)"
    and rows_3: "row E3 = (row E2)[nat y := r3]" and r3: "row_ok r3"
    and l3: "line_of r3 = line_of (row E ! nat y)"
  shows "lines_of E3 = lines_of E"
    and "\<forall>i<length (row E). row_ok (row E ! i) \<longrightarrow> row_ok (row E3 ! i)"
proof -
  have len: "length (row E2) = length (row E)"
    using lines_of_same_length [OF same] rows_a by simp
  have "lines_of E3 = (lines_of E2)[nat y := line_of r3]"
    by (simp add: lines_of_def rows_3 map_update)
  also have "\<dots> = ((lines_of E)[nat y := line_of ra])[nat y := line_of r3]"
    by (simp add: same) (simp add: lines_of_def rows_a map_update)
  also have "\<dots> = (lines_of E)[nat y := lines_of E ! nat y]"
    using y by (simp add: l3 nth_lines_of)
  also have "\<dots> = lines_of E" by simp
  finally show "lines_of E3 = lines_of E" .
  show "\<forall>i<length (row E). row_ok (row E ! i) \<longrightarrow> row_ok (row E3 ! i)"
  proof (intro allI impI)
    fix i assume i: "i < length (row E)" and oki: "row_ok (row E ! i)"
    show "row_ok (row E3 ! i)"
    proof (cases "i = nat y")
      case True
      with i len r3 show ?thesis by (simp add: rows_3)
    next
      case False
      with i oki have "row_ok (row Ea ! i)" by (simp add: rows_a)
      with okp i have "row_ok (row E2 ! i)" by (simp add: rows_a)
      with False show ?thesis by (simp add: rows_3)
    qed
  qed
qed

lemma char_edits_undone:
  assumes "allocs E = []" and "edits_in_row es E"
  shows "\<exists>E1 E2. apply_edits es E = Some E1 \<and> undo_times (length es) E1 = Some E2
                  \<and> lines_of E2 = lines_of E
                  \<and> (\<forall>i<length (row E). row_ok (row E ! i) \<longrightarrow> row_ok (row E2 ! i))
                  \<and> cy E2 = cy E \<and> cx E2 = undone_cx es E
                  \<and> undo_stack E2 = undo_stack E \<and> allocs E2 = []"
  using assms
proof (induction es arbitrary: E)
  case Nil
  then show ?case by simp
next
  case (Cons e es)
  from Cons.prems(2) have in_row: "edit_in_row e E" by simp
  then have cur: "0 \<le> cy E" "cy E < numrows E" "0 \<le> cx E" "cx E \<le> row_size E (cy E)"
    "row_ok (row_at E (cy E))"
    by (cases e; simp add: cursor_in_row_def)+
  let ?l = "line_of (row_at E (cy E))"
  have ny: "nat (cy E) < length (row E)" using cur by (simp add: numrows_def)
  have lenl: "int (length ?l) = row_size E (cy E)"
    using length_line_of [OF cur(5)] by (simp add: row_size_def)
  from in_row consider c where "e = InsertChar c" | "e = DeleteChar" "0 < cx E"
    by (cases e) simp_all
  then show ?case
  proof cases
    case 1
    from insert_char_ok [OF Cons.prems(1) cur, of c]
    obtain ra Ea where step: "editor_insert_char c E = Some Ea"
      and Ea: "row Ea = (row E)[nat (cy E) := ra]"
        "undo_stack Ea = \<lparr>op_type = OP_INSERT_CHAR, op_cx = cx E, op_cy = cy E, op_c = c,
                           op_line = None, op_line_size = 0\<rparr> # undo_stack E"
        "allocs Ea = []"
      and ra: "row_ok ra" "line_of ra = take (nat (cx E)) ?l @ [c] @ drop (nat (cx E)) ?l"
      using Cons.prems(1) by force
    from 1 step have step': "apply_edit e E = Some Ea" by simp
    with Cons.prems(2) have rest: "edits_in_row es Ea" by simp
    from Cons.IH [OF Ea(3) rest] obtain E1 E2 where
      run: "apply_edits es Ea = Some E1" and undone: "undo_times (length es) E1 = Some E2"
      and same: "lines_of E2 = lines_of Ea"
      and okp: "\<forall>i<length (row Ea). row_ok (row Ea ! i) \<longrightarrow> row_ok (row E2 ! i)"
      and st2: "undo_stack E2 = undo_stack Ea" and al2: "allocs E2 = []"
      by blast
    have len2: "length (row E2) = length (row E)"
      using lines_of_same_length [OF same] Ea(1) by simp
    have y2: "cy E < numrows E2" using cur len2 by (simp add: numrows_def)
    have ok2: "row_ok (row_at E2 (cy E))"
      using okp ny ra(1) by (simp add: Ea(1) row_at_def)
    have ln2: "line_of (row_at E2 (cy E)) = take (nat (cx E)) ?l @ [c] @ drop (nat (cx E)) ?l"
    proof -
      have "line_of (row_at E2 (cy E)) = lines_of E2 ! nat (cy E)"
        using ny len2 by (simp add: nth_lines_of row_at_def)
      also have "\<dots> = lines_of Ea ! nat (cy E)" by (simp only: same)
      also have "\<dots> = line_of ra" using ny by (simp add: nth_lines_of Ea(1))
      finally show ?thesis by (simp add: ra(2))
    qed
    have xl: "cx E \<le> int (length ?l)" using cur lenl by simp
    from undo_insert_char_restores [OF _ cur(1) y2 cur(3) xl ok2 ln2, of "undo_stack E"]
      st2 Ea(2) al2
    obtain E3 r3 where E3: "editor_undo E2 = Some E3" "row E3 = (row E2)[nat (cy E) := r3]"
      "row_ok r3" "line_of r3 = ?l" "cx E3 = cx E" "cy E3 = cy E"
      "undo_stack E3 = undo_stack E" "allocs E3 = []"
      by auto
    from E3(4) have l3: "line_of r3 = line_of (row E ! nat (cy E))" by (simp add: row_at_def)
    note res = restored_row [OF Ea(1) ra(1) ny same okp E3(2) E3(3) l3]
    from edit_then_undo_step [OF step' run undone E3(1)] res E3(5-8) 1
    show ?thesis by auto
  next
    case 2
    from del_char_ok [OF cur(1,2) 2(2) cur(4,5)]
    obtain ra Ea where step: "editor_del_char E = Some Ea"
      and Ea: "row Ea = (row E)[nat (cy E) := ra]"
        "undo_stack Ea = \<lparr>op_type = OP_DELETE_CHAR, op_cx = cx E - 1, op_cy = cy E,
                           op_c = ?l ! nat (cx E - 1), op_line = None, op_line_size = 0\<rparr>
                         # undo_stack E"
        "allocs Ea = []"
      and ra: "row_ok ra" "rsize ra = row_size E (cy E) - 1"
        "line_of ra = take (nat (cx E - 1)) ?l @ drop (nat (cx E)) ?l"
      using Cons.prems(1) by force
    from 2 step have step': "apply_edit e E = Some Ea" by simp
    with Cons.prems(2) have rest: "edits_in_row es Ea" by simp
    from Cons.IH [OF Ea(3) rest] obtain E1 E2 where
      run: "apply_edits es Ea = Some E1" and undone: "undo_times (length es) E1 = Some E2"
      and same: "lines_of E2 = lines_of Ea"
      and okp: "\<forall>i<length (row Ea). row_ok (row Ea ! i) \<longrightarrow> row_ok (row E2 ! i)"
      and st2: "undo_stack E2 = undo_stack Ea" and al2: "allocs E2 = []"
      by blast
    have len2: "length (row E2) = length (row E)"
      using lines_of_same_length [OF same] Ea(1) by simp
    have y2: "cy E < numrows E2" using cur len2 by (simp add: numrows_def)
    have ok2: "row_ok (row_at E2 (cy E))"
      using okp ny ra(1) by (simp add: Ea(1) row_at_def)
    have ln2: "line_of (row_at E2 (cy E)) = take (nat (cx E - 1)) ?l @ drop (nat (cx E)) ?l"
    proof -
      have "line_of (row_at E2 (cy E)) = lines_of E2 ! nat (cy E)"
        using ny len2 by (simp add: nth_lines_of row_at_def)
      also have "\<dots> = lines_of Ea ! nat (cy E)" by (simp only: same)
      also have "\<dots> = line_of ra" using ny by (simp add: nth_lines_of Ea(1))
      finally show ?thesis by (simp add: ra(3))
    qed
    have sz2: "rsize (row_at E2 (cy E)) = row_size E (cy E) - 1"
      using length_line_of [OF ok2] 2(2) cur lenl by (simp add: ln2)
    have x0: "0 \<le> cx E - 1" "cx E - 1 \<le> rsize (row_at E2 (cy E))"
      using 2(2) cur sz2 by simp_all
    from undo_delete_char_restores [OF _ cur(1) y2 x0 ok2 al2, of _ "undo_stack E"]
      st2 Ea(2)
    obtain E3 r3 where E3: "editor_undo E2 = Some E3" "row E3 = (row E2)[nat (cy E) := r3]"
      "row_ok r3"
      "line_of r3 = take (nat (cx E - 1)) (line_of (row_at E2 (cy E)))
                      @ [?l ! nat (cx E - 1)]
                      @ drop (nat (cx E - 1)) (line_of (row_at E2 (cy E)))"
      "cx E3 = cx E - 1" "cy E3 = cy E" "undo_stack E3 = undo_stack E" "allocs E3 = []"
      by auto
    have n: "0 < nat (cx E)" "nat (cx E) \<le> length ?l" "nat (cx E - 1) = nat (cx E) - 1"
      using 2(2) cur lenl by simp_all
    have "line_of r3 = ?l"
      by (simp only: E3(4) ln2 n(3) insert_removed [OF n(1,2)])
    then have l3: "line_of r3 = line_of (row E ! nat (cy E))" by (simp add: row_at_def)
    note res = restored_row [OF Ea(1) ra(1) ny same okp E3(2) E3(3) l3]
    from edit_then_undo_step [OF step' run undone E3(1)] res E3(5-8) 2
    show ?thesis by auto
  qed
qed

subsection \<open>Row operations\<close>

lemma read_ptr_length: "read_ptr s len = Some bytes \<Longrightarrow> int (length bytes) = len"
  by (auto simp: read_ptr_def mem_read_def split: option.splits if_splits)

text \<open>The line of a record as \<^verbatim>\<open>push_operation\<close> stored it, read back.\<close>

lemma read_op_line:
  assumes "op_line_size p = int (length l)" and "op_line p = (if l = [] then None else Some l)"
  shows "read_ptr (op_line_ptr p) (op_line_size p) = Some l"
  using assms by (simp add: op_line_ptr_def read_ptr_terminated) (simp add: read_ptr_def)

lemma push_redo_ok:
  assumes "op_line p = None \<or> op_line p = Some l \<and> op_line_size p = int (length l)"
  shows "\<exists>st. push_redo p E = Some (E\<lparr>redo_stack := st\<rparr>)"
  using assms
  by (auto simp: push_redo_def push_operation_def op_line_ptr_def is_null_def
        read_ptr_terminated)

lemma insert_row_ok:
  assumes al: "allocs E = []" and at: "0 \<le> at" "at \<le> numrows E"
    and rd: "read_ptr s len = Some bytes"
  shows "editor_insert_row at s len E
           = Some (E\<lparr>row := take (nat at) (row E) @ [erow_of bytes] @ drop (nat at) (row E),
                     dirty := dirty E + 1,
                     statusmsg := ''Line inserted at position '' @ show_int (at + 1),
                     undo_stack := \<lparr>op_type = OP_INSERT_LINE, op_cx = 0, op_cy = at,
                                      op_c = CHR 0x00,
                                      op_line = (if is_null s \<or> bytes = [] then None
                                                 else Some bytes),
                                      op_line_size = int (length bytes)\<rparr>
                                    # undo_stack E,
                     redo_stack := []\<rparr>)"
proof -
  from read_ptr_length [OF rd] have len: "len = int (length bytes)" by simp
  then have req: "0 < len + 1" by simp
  show ?thesis
    using al at rd req
    by (simp add: editor_insert_row_def alloc_ok_nil alloc_next_nil alloc_req_nil
          push_operation_def erow_of_def len)
qed

lemma del_row_ok:
  assumes at: "0 \<le> at" "at < numrows E" and ok: "row_ok (row_at E at)"
  shows "editor_del_row at E
           = Some (E\<lparr>undo_stack := \<lparr>op_type = OP_DELETE_LINE, op_cx = 0, op_cy = at,
                                      op_c = CHR 0x00,
                                      op_line = (if line_of (row_at E at) = [] then None
                                                 else Some (line_of (row_at E at))),
                                      op_line_size = int (length (line_of (row_at E at)))\<rparr>
                                    # undo_stack E,
                     row := take (nat at) (row E) @ drop (nat at + 1) (row E),
                     dirty := dirty E + 1, redo_stack := []\<rparr>)"
proof -
  from ok obtain b where b: "chars (row_at E at) = Some b" "0 \<le> rsize (row_at E at)"
    "nat (rsize (row_at E at)) < length b" "line_of (row_at E at) = take (nat (rsize (row_at E at))) b"
    by (rule row_okE)
  have sz: "rsize (row_at E at) = int (length (line_of (row_at E at)))"
    using length_line_of [OF ok] by simp
  have rd: "0 < rsize (row_at E at) \<Longrightarrow>
              read_ptr (Some b, 0) (rsize (row_at E at)) = Some (line_of (row_at E at))"
    using b by (simp add: read_ptr_def mem_read_def)
  have e: "(line_of (row_at E at) = []) = (rsize (row_at E at) = 0)"
    using sz by auto
  show ?thesis
    using at b(1,2) rd
    by (cases "rsize (row_at E at) = 0")
       (simp_all add: editor_del_row_def push_operation_def is_null_def row_size_def e sz [symmetric])
qed

subsection \<open>Newline inside a row\<close>

lemma read_row_tail:
  assumes ok: "row_ok r" and x: "0 \<le> x" "x \<le> rsize r"
  shows "read_ptr (chars r, x) (rsize r - x) = Some (drop (nat x) (line_of r))"
proof -
  from ok obtain b where b: "chars r = Some b" "0 \<le> rsize r" "nat (rsize r) < length b"
    "line_of r = take (nat (rsize r)) b"
    by (rule row_okE)
  show ?thesis
  proof (cases "x = rsize r")
    case True
    then show ?thesis using b by (simp add: read_ptr_def mem_read_def)
  next
    case False
    with x have lt: "x < rsize r" by simp
    have "mem_read b (int (nat x)) (int (nat (rsize r) - nat x))
            = Some (take (nat (rsize r) - nat x) (drop (nat x) b))"
      using x lt b by (intro mem_read_nat) simp_all
    moreover have "int (nat (rsize r) - nat x) = rsize r - x" using x lt by simp
    ultimately show ?thesis using x b by (simp add: read_ptr_def drop_take)
  qed
qed

lemma cut_row_ok:
  assumes ok: "row_ok r" and b: "chars r = Some b" and x: "0 \<le> x" "x \<le> rsize r"
  shows "\<exists>b'. mem_write b x [CHR 0x00] = Some b' \<and> row_ok \<lparr>rsize = x, chars = Some b'\<rparr>
               \<and> line_of \<lparr>rsize = x, chars = Some b'\<rparr> = take (nat x) (line_of r)"
proof -
  from ok b have r: "0 \<le> rsize r" "nat (rsize r) < length b" "line_of r = take (nat (rsize r)) b"
    by (auto elim: row_okE)
  define b' where "b' = take (nat x) b @ [CHR 0x00] @ drop (nat x + 1) b"
  have "mem_write b (int (nat x)) [CHR 0x00] = Some b'"
    unfolding b'_def using x r by (subst mem_write_nat) simp_all
  then have w: "mem_write b x [CHR 0x00] = Some b'" using x by simp
  have len: "length b' = length b" using x r by (simp add: b'_def)
  have "row_ok \<lparr>rsize = x, chars = Some b'\<rparr>" using x r len by (simp add: row_ok_def)
  moreover have "line_of \<lparr>rsize = x, chars = Some b'\<rparr> = take (nat x) (line_of r)"
    using x r by (simp add: line_of_def b'_def min_def)
  ultimately show ?thesis using w by blast
qed

lemma newline_ok:
  assumes al: "allocs E = []" and cur: "cursor_in_row E"
  shows "\<exists>Ea r1 r2 p q. editor_insert_newline E = Some Ea
           \<and> row Ea = take (nat (cy E)) (row E) @ [r1, r2] @ drop (nat (cy E) + 1) (row E)
           \<and> row_ok r1 \<and> row_ok r2 \<and> line_of r1 @ line_of r2 = line_of (row_at E (cy E))
           \<and> cx Ea = 0 \<and> cy Ea = cy E + 1 \<and> undo_stack Ea = p # q # undo_stack E
           \<and> op_type p = OP_NEWLINE \<and> op_cx p = cx E \<and> op_type q = OP_INSERT_LINE
           \<and> allocs Ea = [] \<and> redo_stack Ea = []"
proof -
  let ?r = "row_at E (cy E)"
  let ?l = "line_of ?r"
  define E0 where "E0 = E\<lparr>redo_stack := []\<rparr>"
  from cur have y: "0 \<le> cy E" "cy E < numrows E" and x: "0 \<le> cx E" "cx E \<le> rsize ?r"
    and ok: "row_ok ?r"
    by (simp_all add: cursor_in_row_def row_size_def)
  from ok obtain b where b: "chars ?r = Some b" by (rule row_okE)
  have sz: "rsize ?r = int (length ?l)" using length_line_of [OF ok] by simp
  have ny: "nat (cy E) < length (row E)" using y by (simp add: numrows_def)
  have E0: "allocs E0 = []" "numrows E0 = numrows E" "row E0 = row E" "cx E0 = cx E"
    "cy E0 = cy E" "row_at E0 (cy E) = ?r" "undo_stack E0 = undo_stack E"
    using al by (simp_all add: E0_def numrows_def row_at_def)
  define tail where "tail = drop (nat (cx E)) ?l"
  have rd: "read_ptr (chars ?r, cx E) (rsize ?r - cx E) = Some tail"
    unfolding tail_def using ok x by (rule read_row_tail)
  have tl_len: "int (length tail) = rsize ?r - cx E" using x sz by (simp add: tail_def)
  have "(int (length tail) = 0) = (\<not> cx E < rsize ?r)"
    unfolding tl_len using x by arith
  then have tl_nil: "(tail = []) = (\<not> cx E < rsize ?r)" by simp
  define p where "p = \<lparr>op_type = OP_NEWLINE, op_cx = cx E, op_cy = cy E, op_c = CHR 0x0A,
                        op_line = (if tail = [] then None else Some tail),
                        op_line_size = int (length tail)\<rparr>"
  have psh1: "\<And>st. cx E < rsize ?r \<Longrightarrow>
               push_operation st OP_NEWLINE (cx E) (cy E) (CHR 0x0A) (Some (terminated tail), 0)
                 (rsize ?r - cx E) = Some (p # st)"
    using tl_nil by (simp add: p_def push_operation_terminated tl_len [symmetric])
  have psh2: "\<And>st. \<not> cx E < rsize ?r \<Longrightarrow>
               push_operation st OP_NEWLINE (cx E) (cy E) (CHR 0x0A) (None, 0) 0 = Some (p # st)"
    using tl_nil by (simp add: p_def push_operation_null)
  show ?thesis
  proof (cases "cx E = 0")
    case True
    define q where "q = \<lparr>op_type = OP_INSERT_LINE, op_cx = 0, op_cy = cy E, op_c = CHR 0x00,
                          op_line = None, op_line_size = 0\<rparr>"
    define E2 where "E2 = E0\<lparr>row := take (nat (cy E)) (row E) @ [erow_of [], ?r]
                                       @ drop (nat (cy E) + 1) (row E),
                               dirty := dirty E0 + 1,
                               statusmsg := ''Line inserted at position '' @ show_int (cy E + 1),
                               undo_stack := q # undo_stack E, redo_stack := []\<rparr>"
    have "read_ptr empty_literal 0 = Some []" by (simp add: read_ptr_def empty_literal_def mem_read_def)
    from insert_row_ok [OF E0(1) y(1) _ this, of ] y E0
    have ins: "editor_insert_row (cy E) empty_literal 0 E0 = Some E2"
      using ny by (simp add: E2_def q_def Cons_nth_drop_Suc row_at_def)
    define Ea where "Ea = E2\<lparr>undo_stack := p # q # undo_stack E, cy := cy E + 1, cx := 0,
                               dirty := dirty E2 + 1\<rparr>"
    have c2: "cx E2 = 0" "cy E2 = cy E" "undo_stack E2 = q # undo_stack E"
      using E0 True by (simp_all add: E2_def)
    have rd0: "read_ptr (Some b, 0) (rsize ?r) = Some tail" using rd b True by simp
    have psh0: "0 < rsize ?r \<Longrightarrow>
                 push_operation (q # undo_stack E) OP_NEWLINE 0 (cy E) (CHR 0x0A)
                   (Some (terminated tail), 0) (rsize ?r) = Some (p # q # undo_stack E)"
      "\<not> 0 < rsize ?r \<Longrightarrow>
                 push_operation (q # undo_stack E) OP_NEWLINE 0 (cy E) (CHR 0x0A)
                   (None, 0) 0 = Some (p # q # undo_stack E)"
      using psh1 [of "q # undo_stack E"] psh2 [of "q # undo_stack E"] True by simp_all
    have "editor_insert_newline E = Some Ea"
      using y b rd0 ins psh0 E0 c2
      by (simp add: editor_insert_newline_def E0_def [symmetric] Let_def alloc_ok_nil
            alloc_next_nil Ea_def True)
    moreover have "row Ea = take (nat (cy E)) (row E) @ [erow_of [], ?r]
                              @ drop (nat (cy E) + 1) (row E)"
      by (simp add: Ea_def E2_def)
    moreover have "line_of (erow_of []) @ ?l = ?l" by simp
    moreover have "cx Ea = 0" "cy Ea = cy E + 1" "undo_stack Ea = p # q # undo_stack E"
      "allocs Ea = []" "redo_stack Ea = []"
      using E0 by (simp_all add: Ea_def E2_def)
    moreover have "op_type p = OP_NEWLINE" "op_cx p = cx E" "op_type q = OP_INSERT_LINE"
      by (simp_all add: p_def q_def)
    ultimately show ?thesis using ok row_ok_erow_of [of "[]"] by blast
  next
    case False
    with x have pos: "0 < cx E" by simp
    define q where "q = \<lparr>op_type = OP_INSERT_LINE, op_cx = 0, op_cy = cy E + 1, op_c = CHR 0x00,
                          op_line = (if tail = [] then None else Some tail),
                          op_line_size = int (length tail)\<rparr>"
    define E2 where "E2 = E0\<lparr>row := take (nat (cy E + 1)) (row E) @ [erow_of tail]
                                       @ drop (nat (cy E + 1)) (row E),
                               dirty := dirty E0 + 1,
                               statusmsg := ''Line inserted at position ''
                                              @ show_int (cy E + 1 + 1),
                               undo_stack := q # undo_stack E, redo_stack := []\<rparr>"
    have y1: "0 \<le> cy E + 1" "cy E + 1 \<le> numrows E0" using y E0 by simp_all
    have nn: "\<not> is_null (chars ?r, cx E)" using b by (simp add: is_null_def)
    from insert_row_ok [OF E0(1) y1 rd] nn E0
    have ins: "editor_insert_row (cy E + 1) (chars ?r, cx E) (rsize ?r - cx E) E0 = Some E2"
      by (simp add: E2_def q_def)
    from cut_row_ok [OF ok b x] obtain b' where
      b': "mem_write b (cx E) [CHR 0x00] = Some b'" "row_ok \<lparr>rsize = cx E, chars = Some b'\<rparr>"
        "line_of \<lparr>rsize = cx E, chars = Some b'\<rparr> = take (nat (cx E)) ?l"
      by blast
    have at2: "row_at E2 (cy E) = ?r"
      using ny y by (simp add: E2_def row_at_def nth_append nat_add_distrib)
    define r1 where "r1 = \<lparr>rsize = cx E, chars = Some b'\<rparr>"
    define Ea where "Ea = E2\<lparr>row := (row E2)[nat (cy E) := r1],
                               undo_stack := p # q # undo_stack E, cy := cy E + 1, cx := 0,
                               dirty := dirty E2 + 1\<rparr>"
    have c2: "cx E2 = cx E" "cy E2 = cy E" "undo_stack E2 = q # undo_stack E"
      using E0 by (simp_all add: E2_def)
    have "editor_insert_newline E = Some Ea"
      using y False b rd ins psh1 [of "q # undo_stack E"] psh2 [of "q # undo_stack E"]
        E0 at2 b'(1) c2
      by (simp add: editor_insert_newline_def E0_def [symmetric] Let_def alloc_ok_nil
            alloc_next_nil Ea_def set_row_def r1_def)
    moreover have "row Ea = take (nat (cy E)) (row E) @ [r1, erow_of tail]
                              @ drop (nat (cy E) + 1) (row E)"
    proof -
      have "take (nat (cy E + 1)) (row E) = take (nat (cy E)) (row E) @ [row E ! nat (cy E)]"
        using ny y by (simp add: nat_add_distrib take_Suc_conv_app_nth)
      moreover have "nat (cy E + 1) = nat (cy E) + 1" using y by simp
      ultimately show ?thesis using ny by (simp add: Ea_def E2_def list_update_append)
    qed
    moreover have "line_of r1 @ line_of (erow_of tail) = ?l"
      using b'(3) by (simp add: r1_def tail_def)
    moreover have "cx Ea = 0" "cy Ea = cy E + 1" "undo_stack Ea = p # q # undo_stack E"
      "allocs Ea = []" "redo_stack Ea = []"
      using E0 by (simp_all add: Ea_def E2_def)
    moreover have "op_type p = OP_NEWLINE" "op_cx p = cx E" "op_type q = OP_INSERT_LINE"
      by (simp_all add: p_def q_def)
    moreover have "row_ok r1" using b'(2) by (simp add: r1_def)
    ultimately show ?thesis using row_ok_erow_of [of tail] by blast
  qed
qed

subsection \<open>Undo of the row operations\<close>

lemma merge_rows_ok:
  assumes okp: "row_ok rp" and okc: "row_ok rc"
  obtains bs1 bs2 b where
    "read_ptr (chars rc, 0) (rsize rc) = Some (line_of rc)"
    "mem_write (resize (rsize rp + rsize rc + 1) (chars rp)) (rsize rp)
       (map Some (line_of rc)) = Some bs1"
    "mem_write bs1 (rsize rp + rsize rc) [Some (CHR 0x00)] = Some bs2"
    "freeze bs2 = Some b"
    "row_ok \<lparr>rsize = rsize rp + rsize rc, chars = Some b\<rparr>"
    "line_of \<lparr>rsize = rsize rp + rsize rc, chars = Some b\<rparr> = line_of rp @ line_of rc"
proof -
  from okp obtain bp where bp: "chars rp = Some bp" "0 \<le> rsize rp"
    "nat (rsize rp) < length bp" "line_of rp = take (nat (rsize rp)) bp"
    by (rule row_okE)
  define np where "np = nat (rsize rp)"
  define lc where "lc = line_of rc"
  define nc where "nc = length lc"
  have n: "rsize rp = int np" "rsize rc = int nc" "np < length bp"
    using bp length_line_of [OF okc] by (simp_all add: np_def nc_def lc_def)
  have rd: "read_ptr (chars rc, 0) (rsize rc) = Some lc"
    using read_row_tail [OF okc, of 0] okc by (auto simp: lc_def elim: row_okE)
  define bs where "bs = resize (rsize rp + rsize rc + 1) (chars rp)"
  have bs: "bs = map Some (take (np + nc + 1) bp) @ replicate (np + nc + 1 - length bp) None"
    using n by (simp add: bs_def resize_def bp(1) nat_add_distrib take_map)
  have len: "length bs = np + nc + 1" by (simp add: bs)
  have hd_bs: "take np bs = map Some (take np bp)"
    using n by (simp add: bs take_map min_def)
  define bs1 where "bs1 = take np bs @ map Some lc @ drop (np + nc) bs"
  have "mem_write bs (int np) (map Some lc) = Some bs1"
    unfolding bs1_def using len mem_write_nat [of np "map Some lc" bs] by (simp add: nc_def)
  then have w1: "mem_write bs (rsize rp) (map Some lc) = Some bs1" using n by simp
  have len1: "length bs1 = np + nc + 1" using len by (simp add: bs1_def nc_def)
  define bs2 where "bs2 = take (np + nc) bs1 @ [Some (CHR 0x00)] @ drop (np + nc + 1) bs1"
  have "mem_write bs1 (int (np + nc)) [Some (CHR 0x00)] = Some bs2"
    unfolding bs2_def using len1 by (subst mem_write_nat) simp_all
  then have w2: "mem_write bs1 (rsize rp + rsize rc) [Some (CHR 0x00)] = Some bs2"
    using n by simp
  define b where "b = take np bp @ lc @ [CHR 0x00]"
  have "take (np + nc) bs1 = map Some (take np bp) @ map Some lc"
    using len n by (simp add: bs1_def hd_bs nc_def min_def)
  then have bs2': "bs2 = map Some b"
    using len1 by (simp add: bs2_def b_def)
  have fr: "freeze bs2 = Some b"
    by (auto simp: freeze_def bs2' comp_def)
  have lb: "length b = np + nc + 1" using n by (simp add: b_def nc_def)
  have ok: "row_ok \<lparr>rsize = rsize rp + rsize rc, chars = Some b\<rparr>"
    using n lb by (simp add: row_ok_def)
  have l1: "line_of \<lparr>rsize = rsize rp + rsize rc, chars = Some b\<rparr> = take (np + nc) b"
    using n by (simp add: line_of_def nat_add_distrib)
  have l2: "take (np + nc) b = take np bp @ lc" using n by (simp add: b_def nc_def)
  have l3: "line_of rp @ line_of rc = take np bp @ lc" by (simp only: bp(4) np_def lc_def)
  have ln: "line_of \<lparr>rsize = rsize rp + rsize rc, chars = Some b\<rparr>
              = line_of rp @ line_of rc"
    by (simp only: l1 l2 l3)
  from rd w1 w2 fr ok ln show ?thesis
    by (intro that [of bs1 bs2 b]) (simp_all add: lc_def bs_def)
qed

lemma undo_newline_ok:
  assumes st: "undo_stack E2 = p # st" and ty: "op_type p = OP_NEWLINE"
    and al: "allocs E2 = []"
    and y: "0 < cy E2" "cy E2 < numrows E2"
    and okp: "row_ok (row_at E2 (cy E2 - 1))" and okc: "row_ok (row_at E2 (cy E2))"
  shows "\<exists>E3. editor_undo E2 = Some E3
               \<and> lines_of E3 = take (nat (cy E2) - 1) (lines_of E2)
                                 @ [lines_of E2 ! (nat (cy E2) - 1) @ lines_of E2 ! nat (cy E2)]
                                 @ drop (nat (cy E2) + 1) (lines_of E2)
               \<and> cx E3 = op_cx p \<and> cy E3 = cy E2 - 1"
proof -
  let ?prev = "row_at E2 (cy E2 - 1)"
  let ?curr = "row_at E2 (cy E2)"
  define n where "n = nat (cy E2)"
  have n: "cy E2 = int n" "0 < n" "n < length (row E2)"
    using y by (simp_all add: n_def numrows_def)
  define E0 where "E0 = E2\<lparr>undo_stack := st\<rparr>"
  have E0: "allocs E0 = []" "numrows E0 = numrows E2" "cy E0 = cy E2" "row E0 = row E2"
    "row_at E0 (cy E2 - 1) = ?prev" "row_at E0 (cy E2) = ?curr"
    using al by (simp_all add: E0_def numrows_def row_at_def)
  from merge_rows_ok [OF okp okc] obtain bs1 bs2 b where
    m: "read_ptr (chars ?curr, 0) (rsize ?curr) = Some (line_of ?curr)"
      "mem_write (resize (rsize ?prev + rsize ?curr + 1) (chars ?prev)) (rsize ?prev)
         (map Some (line_of ?curr)) = Some bs1"
      "mem_write bs1 (rsize ?prev + rsize ?curr) [Some (CHR 0x00)] = Some bs2"
      "freeze bs2 = Some b"
      "row_ok \<lparr>rsize = rsize ?prev + rsize ?curr, chars = Some b\<rparr>"
      "line_of \<lparr>rsize = rsize ?prev + rsize ?curr, chars = Some b\<rparr>
         = line_of ?prev @ line_of ?curr"
    by blast
  define mr where "mr = \<lparr>rsize = rsize ?prev + rsize ?curr, chars = Some b\<rparr>"
  define E3 where "E3 = set_row E0 (cy E2 - 1) mr"
  have E3: "numrows E3 = numrows E2" "cy E3 = cy E2" "row E3 = (row E2)[n - 1 := mr]"
    "allocs E3 = []"
    using n E0 by (simp_all add: E3_def set_row_def numrows_def nat_diff_distrib)
  have at3: "row_at E3 (cy E2) = ?curr"
    using n by (simp add: row_at_def E3(3))
  from okc at3 have ok3: "row_ok (row_at E3 (cy E2))" by simp
  have y3: "0 \<le> cy E2" "cy E2 < numrows E3" using y E3 by simp_all
  define E4 where "E4 = E3\<lparr>undo_stack := \<lparr>op_type = OP_DELETE_LINE, op_cx = 0, op_cy = cy E2,
                                      op_c = CHR 0x00,
                                      op_line = (if line_of (row_at E3 (cy E2)) = [] then None
                                                 else Some (line_of (row_at E3 (cy E2)))),
                                      op_line_size = int (length (line_of (row_at E3 (cy E2))))\<rparr>
                                    # undo_stack E3,
                     row := take (nat (cy E2)) (row E3) @ drop (nat (cy E2) + 1) (row E3),
                     dirty := dirty E3 + 1, redo_stack := []\<rparr>"
  have del: "editor_del_row (cy E2) E3 = Some E4"
    unfolding E4_def by (rule del_row_ok [OF y3 ok3])
  have c4: "cy E4 = cy E2" by (simp add: E4_def E3(2))
  define lcp where "lcp = (if op_line p \<noteq> None then map_option c_str (op_line p) else None)"
  define p' where "p' = p\<lparr>op_line := lcp,
                           op_line_size := (case lcp of None \<Rightarrow> 0 | Some l \<Rightarrow> int (length l))\<rparr>"
  define E5 where "E5 = E4\<lparr>cy := cy E2 - 1, cx := op_cx p, dirty := dirty E4 + 1\<rparr>"
  from okp okc have "0 \<le> rsize ?prev" "0 \<le> rsize ?curr" by (auto elim: row_okE)
  then have req: "0 < rsize ?prev + rsize ?curr + 1" by simp
  have un: "undo_newline p E0 = Some (p', E5)"
    using y E0 req m(1-4) del E3(2) c4
    by (simp add: undo_newline_def Let_def alloc_ok_nil alloc_next_nil alloc_req_nil
          mr_def [symmetric] E3_def [symmetric] E5_def p'_def lcp_def)
  have "op_line p' = None \<or> (\<exists>l. op_line p' = Some l \<and> op_line_size p' = int (length l))"
    by (cases lcp) (simp_all add: p'_def)
  then obtain st' where "push_redo p' E5 = Some (E5\<lparr>redo_stack := st'\<rparr>)"
    using push_redo_ok [of p' _ E5] by blast
  with un st ty have res: "editor_undo E2 = Some (E5\<lparr>redo_stack := st'\<rparr>)"
    by (simp add: editor_undo_def E0_def [symmetric])
  have rows: "row E5 = take (n - 1) (row E2) @ [mr] @ drop (n + 1) (row E2)"
  proof -
    have "take n ((row E2)[n - 1 := mr]) = take (n - 1) (row E2) @ [mr]"
      using n take_Suc_conv_app_nth [of "n - 1" "(row E2)[n - 1 := mr]"] by simp
    then show ?thesis using n by (simp add: E5_def E4_def E3(3))
  qed
  have "lines_of (E5\<lparr>redo_stack := st'\<rparr>)
          = take (n - 1) (lines_of E2) @ [lines_of E2 ! (n - 1) @ lines_of E2 ! n]
              @ drop (n + 1) (lines_of E2)"
    using n m(6)
    by (simp add: lines_of_def rows take_map drop_map mr_def row_at_def nat_diff_distrib)
  moreover have "cx (E5\<lparr>redo_stack := st'\<rparr>) = op_cx p" "cy (E5\<lparr>redo_stack := st'\<rparr>) = cy E2 - 1"
    by (simp_all add: E5_def)
  ultimately show ?thesis using res by (simp add: n_def)
qed

lemma undo_insert_line_ok:
  assumes st: "undo_stack E2 = p # st" and ty: "op_type p = OP_INSERT_LINE"
    and at: "op_cy p = at" "0 \<le> at" "at < numrows E2"
    and ln: "op_line p = None \<or> op_line p = Some l \<and> op_line_size p = int (length l)"
    and ok: "row_ok (row_at E2 at)"
  shows "\<exists>E3. editor_undo E2 = Some E3
               \<and> row E3 = take (nat at) (row E2) @ drop (nat at + 1) (row E2)
               \<and> cx E3 = 0 \<and> cy E3 = at"
proof -
  define E0 where "E0 = E2\<lparr>undo_stack := st\<rparr>"
  have E0: "numrows E0 = numrows E2" "row E0 = row E2" "row_at E0 at = row_at E2 at"
    by (simp_all add: E0_def numrows_def row_at_def)
  from ok E0 have ok0: "row_ok (row_at E0 at)" by simp
  have at0: "at < numrows E0" using at E0 by simp
  define Ed where "Ed = E0\<lparr>undo_stack := \<lparr>op_type = OP_DELETE_LINE, op_cx = 0, op_cy = at,
                                      op_c = CHR 0x00,
                                      op_line = (if line_of (row_at E0 at) = [] then None
                                                 else Some (line_of (row_at E0 at))),
                                      op_line_size = int (length (line_of (row_at E0 at)))\<rparr>
                                    # undo_stack E0,
                     row := take (nat at) (row E0) @ drop (nat at + 1) (row E0),
                     dirty := dirty E0 + 1, redo_stack := []\<rparr>"
  have del: "editor_del_row at E0 = Some Ed"
    unfolding Ed_def by (rule del_row_ok [OF at(2) at0 ok0])
  define E1 where "E1 = Ed\<lparr>cx := 0, cy := at\<rparr>"
  from push_redo_ok [OF ln, of E1] obtain st' where
    "push_redo p E1 = Some (E1\<lparr>redo_stack := st'\<rparr>)"
    by blast
  with st ty at(1) del have "editor_undo E2 = Some (E1\<lparr>redo_stack := st'\<rparr>)"
    by (simp add: editor_undo_def E0_def [symmetric] E1_def)
  moreover have "row (E1\<lparr>redo_stack := st'\<rparr>) = take (nat at) (row E2) @ drop (nat at + 1) (row E2)"
    "cx (E1\<lparr>redo_stack := st'\<rparr>) = 0" "cy (E1\<lparr>redo_stack := st'\<rparr>) = at"
    by (simp_all add: E1_def Ed_def E0)
  ultimately show ?thesis by blast
qed

lemma undo_delete_line_ok:
  assumes st: "undo_stack E2 = p # st" and ty: "op_type p = OP_DELETE_LINE"
    and at: "op_cy p = at" "0 \<le> at" "at \<le> numrows E2"
    and ln: "op_line_size p = int (length l)" "op_line p = (if l = [] then None else Some l)"
    and al: "allocs E2 = []"
  shows "\<exists>E3. editor_undo E2 = Some E3
               \<and> row E3 = take (nat at) (row E2) @ [erow_of l] @ drop (nat at) (row E2)
               \<and> cx E3 = 0 \<and> cy E3 = at"
proof -
  define E0 where "E0 = E2\<lparr>undo_stack := st\<rparr>"
  have E0: "numrows E0 = numrows E2" "row E0 = row E2" "allocs E0 = []"
    using al by (simp_all add: E0_def numrows_def)
  have at0: "at \<le> numrows E0" using at E0 by simp
  define Ei where "Ei = E0\<lparr>row := take (nat at) (row E0) @ [erow_of l] @ drop (nat at) (row E0),
                     dirty := dirty E0 + 1,
                     statusmsg := ''Line inserted at position '' @ show_int (at + 1),
                     undo_stack := \<lparr>op_type = OP_INSERT_LINE, op_cx = 0, op_cy = at,
                                      op_c = CHR 0x00,
                                      op_line = (if is_null (op_line_ptr p) \<or> l = [] then None
                                                 else Some l),
                                      op_line_size = int (length l)\<rparr>
                                    # undo_stack E0,
                     redo_stack := []\<rparr>"
  have ins: "editor_insert_row at (op_line_ptr p) (op_line_size p) E0 = Some Ei"
    unfolding Ei_def by (rule insert_row_ok [OF E0(3) at(2) at0 read_op_line [OF ln]])
  define E1 where "E1 = Ei\<lparr>cx := 0, cy := at\<rparr>"
  have "op_line p = None \<or> op_line p = Some l \<and> op_line_size p = int (length l)"
    using ln by simp
  from push_redo_ok [OF this, of E1] obtain st' where
    "push_redo p E1 = Some (E1\<lparr>redo_stack := st'\<rparr>)"
    by blast
  with st ty at(1) ins have "editor_undo E2 = Some (E1\<lparr>redo_stack := st'\<rparr>)"
    by (simp add: editor_undo_def E0_def [symmetric] E1_def)
  moreover have "row (E1\<lparr>redo_stack := st'\<rparr>)
                   = take (nat at) (row E2) @ [erow_of l] @ drop (nat at) (row E2)"
    "cx (E1\<lparr>redo_stack := st'\<rparr>) = 0" "cy (E1\<lparr>redo_stack := st'\<rparr>) = at"
    by (simp_all add: E1_def Ei_def E0)
  ultimately show ?thesis by blast
qed

subsection \<open>A row operation first, character edits behind it\<close>

lemma split_merge:
  assumes "n < length ls" and "l1 @ l2 = ls ! n"
    and "ls2 = take n ls @ [l1, l2] @ drop (n + 1) ls"
  shows "take n ls2 @ [ls2 ! n @ ls2 ! Suc n] @ drop (n + 2) ls2 = ls"
proof -
  have len: "length (take n ls) = n" using assms(1) by simp
  have "take n ls2 = take n ls" using len by (simp add: assms(3))
  moreover have "ls2 ! n = l1" "ls2 ! Suc n = l2"
    using len by (simp_all add: assms(3) nth_append)
  moreover have "drop (n + 2) ls2 = drop (n + 1) ls"
    using len by (simp add: assms(3))
  ultimately show ?thesis
    using assms(1,2) id_take_nth_drop [of n ls] by simp
qed

lemma insert_delete:
  assumes "n \<le> length ls" and "ls2 = take n ls @ [l] @ drop n ls"
  shows "take n ls2 @ drop (Suc n) ls2 = ls"
  using assms by simp

lemma delete_insert:
  assumes "n < length ls" and "ls2 = take n ls @ drop (Suc n) ls"
  shows "take n ls2 @ [ls ! n] @ drop n ls2 = ls"
  using assms id_take_nth_drop [of n ls] by simp

lemma newline_head_undone:
  assumes al: "allocs E = []" and cur: "cursor_in_row E"
    and rest: "case editor_insert_newline E of None \<Rightarrow> False | Some E1 \<Rightarrow> edits_in_row es E1"
  shows "\<exists>E'. edit_then_undo (Newline # es) E = Some E' \<and> lines_of E' = lines_of E
               \<and> cx E' = cx E \<and> cy E' = cy E"
proof -
  from newline_ok [OF al cur] obtain Ea r1 r2 p q where
    step: "editor_insert_newline E = Some Ea"
    and Ea: "row Ea = take (nat (cy E)) (row E) @ [r1, r2] @ drop (nat (cy E) + 1) (row E)"
      "row_ok r1" "row_ok r2" "line_of r1 @ line_of r2 = line_of (row_at E (cy E))"
      "cy Ea = cy E + 1" "undo_stack Ea = p # q # undo_stack E" "op_type p = OP_NEWLINE"
      "op_cx p = cx E" "allocs Ea = []"
    by blast
  from cur have y: "0 \<le> cy E" "nat (cy E) < length (row E)"
    by (auto simp: cursor_in_row_def numrows_def)
  define n where "n = nat (cy E)"
  have n: "cy E = int n" "n < length (row E)" using y by (simp_all add: n_def)
  from rest step have in_row: "edits_in_row es Ea" by simp
  from char_edits_undone [OF Ea(9) in_row] obtain E1 E2 where
    run: "apply_edits es Ea = Some E1" and undone: "undo_times (length es) E1 = Some E2"
    and same: "lines_of E2 = lines_of Ea"
    and okp: "\<forall>i<length (row Ea). row_ok (row Ea ! i) \<longrightarrow> row_ok (row E2 ! i)"
    and E2: "cy E2 = cy Ea" "undo_stack E2 = undo_stack Ea" "allocs E2 = []"
    by blast
  have lena: "length (row Ea) = length (row E) + 1" using n by (simp add: Ea(1) n_def)
  have len2: "length (row E2) = length (row E) + 1"
    using lines_of_same_length [OF same] lena by simp
  have rows_a: "row Ea ! n = r1" "row Ea ! Suc n = r2"
    using n by (simp_all add: Ea(1) n_def [symmetric] nth_append)
  have ok2: "row_ok (row E2 ! n)" "row_ok (row E2 ! Suc n)"
    using okp lena n rows_a Ea(2,3) by (metis Suc_eq_plus1 Suc_mono less_SucI)+
  have c2: "cy E2 = int n + 1" using E2(1) Ea(5) n by simp
  have "0 < cy E2" "cy E2 < numrows E2" "row_ok (row_at E2 (cy E2 - 1))"
    "row_ok (row_at E2 (cy E2))"
    using c2 len2 n ok2 by (simp_all add: numrows_def row_at_def nat_add_distrib)
  from undo_newline_ok [OF _ Ea(7) E2(3) this, of "q # undo_stack E"] E2(2) Ea(6)
  obtain E3 where E3: "editor_undo E2 = Some E3"
    "lines_of E3 = take (nat (cy E2) - 1) (lines_of E2)
                     @ [lines_of E2 ! (nat (cy E2) - 1) @ lines_of E2 ! nat (cy E2)]
                     @ drop (nat (cy E2) + 1) (lines_of E2)"
    "cx E3 = op_cx p" "cy E3 = cy E2 - 1"
    by auto
  have nn: "nat (cy E2) - 1 = n" "nat (cy E2) = Suc n" "nat (cy E2) + 1 = n + 2"
    using c2 by (simp_all add: nat_add_distrib)
  have lsa: "lines_of Ea = take n (lines_of E) @ [line_of r1, line_of r2]
                             @ drop (n + 1) (lines_of E)"
    by (simp add: lines_of_def Ea(1) n_def take_map drop_map)
  have mid: "line_of r1 @ line_of r2 = lines_of E ! n"
    using n by (simp add: Ea(4) nth_lines_of row_at_def n_def)
  have nl: "n < length (lines_of E)" using n by simp
  have "lines_of E3 = take n (lines_of Ea) @ [lines_of Ea ! n @ lines_of Ea ! Suc n]
                        @ drop (n + 2) (lines_of Ea)"
    using nn by (simp add: E3(2) same)
  also have "\<dots> = lines_of E" by (rule split_merge [OF nl mid lsa])
  finally have "lines_of E3 = lines_of E" .
  moreover have "cx E3 = cx E" "cy E3 = cy E" using E3(3,4) Ea(8) c2 n by simp_all
  moreover from step have "apply_edit Newline E = Some Ea" by simp
  note edit_then_undo_step [OF this run undone E3(1)]
  ultimately show ?thesis by (auto simp: edit_then_undo_def)
qed

lemma insert_line_head_undone:
  assumes al: "allocs E = []" and at: "0 \<le> at" "at \<le> numrows E"
    and rest: "case editor_insert_row at (Some (terminated s), 0) (int (length s)) E of
                 None \<Rightarrow> False | Some E1 \<Rightarrow> edits_in_row es E1"
  shows "\<exists>E'. edit_then_undo (InsertLine at s # es) E = Some E' \<and> lines_of E' = lines_of E
               \<and> cx E' = 0 \<and> cy E' = at"
proof -
  define n where "n = nat at"
  have n: "at = int n" "n \<le> length (row E)" using at by (simp_all add: n_def numrows_def)
  define q where "q = \<lparr>op_type = OP_INSERT_LINE, op_cx = 0, op_cy = at, op_c = CHR 0x00,
                        op_line = (if is_null (Some (terminated s), 0) \<or> s = [] then None
                                   else Some s),
                        op_line_size = int (length s)\<rparr>"
  define Ea where "Ea = E\<lparr>row := take (nat at) (row E) @ [erow_of s] @ drop (nat at) (row E),
                     dirty := dirty E + 1,
                     statusmsg := ''Line inserted at position '' @ show_int (at + 1),
                     undo_stack := q # undo_stack E, redo_stack := []\<rparr>"
  have step: "editor_insert_row at (Some (terminated s), 0) (int (length s)) E = Some Ea"
    unfolding Ea_def q_def by (rule insert_row_ok [OF al at read_ptr_terminated])
  have Ea: "row Ea = take n (row E) @ [erow_of s] @ drop n (row E)" "allocs Ea = []"
    "undo_stack Ea = q # undo_stack E"
    using al by (simp_all add: Ea_def n_def)
  from rest step have in_row: "edits_in_row es Ea" by simp
  from char_edits_undone [OF Ea(2) in_row] obtain E1 E2 where
    run: "apply_edits es Ea = Some E1" and undone: "undo_times (length es) E1 = Some E2"
    and same: "lines_of E2 = lines_of Ea"
    and okp: "\<forall>i<length (row Ea). row_ok (row Ea ! i) \<longrightarrow> row_ok (row E2 ! i)"
    and E2: "undo_stack E2 = undo_stack Ea" "allocs E2 = []"
    by blast
  have lena: "length (row Ea) = length (row E) + 1" using n by (simp add: Ea(1))
  have len2: "length (row E2) = length (row E) + 1"
    using lines_of_same_length [OF same] lena by simp
  have "row Ea ! n = erow_of s" using n by (simp add: Ea(1) nth_append)
  with okp lena n have ok2: "row_ok (row E2 ! n)" by simp
  have q: "op_type q = OP_INSERT_LINE" "op_cy q = at"
    "op_line q = None \<or> op_line q = Some s \<and> op_line_size q = int (length s)"
    by (auto simp: q_def)
  have "at < numrows E2" "row_ok (row_at E2 at)"
    using n len2 ok2 by (simp_all add: numrows_def row_at_def)
  from undo_insert_line_ok [OF _ q(1,2) at(1) this(1) q(3) this(2), of "undo_stack E"] E2(1) Ea(3)
  obtain E3 where E3: "editor_undo E2 = Some E3"
    "row E3 = take (nat at) (row E2) @ drop (nat at + 1) (row E2)" "cx E3 = 0" "cy E3 = at"
    by auto
  have lsa: "lines_of Ea = take n (lines_of E) @ [s] @ drop n (lines_of E)"
    by (simp add: lines_of_def Ea(1) take_map drop_map)
  have nl: "n \<le> length (lines_of E)" using n by simp
  have "lines_of E3 = take n (lines_of E2) @ drop (Suc n) (lines_of E2)"
    by (simp add: lines_of_def E3(2) n_def take_map drop_map)
  also have "\<dots> = lines_of E" unfolding same by (rule insert_delete [OF nl lsa])
  finally have "lines_of E3 = lines_of E" .
  moreover from step have "apply_edit (InsertLine at s) E = Some Ea" by simp
  note edit_then_undo_step [OF this run undone E3(1)]
  ultimately show ?thesis using E3(3,4) by (auto simp: edit_then_undo_def)
qed

lemma delete_line_head_undone:
  assumes al: "allocs E = []" and at: "0 \<le> at" "at < numrows E"
    and ok: "row_ok (row_at E at)"
    and rest: "case editor_del_row at E of None \<Rightarrow> False | Some E1 \<Rightarrow> edits_in_row es E1"
  shows "\<exists>E'. edit_then_undo (DeleteLine at # es) E = Some E' \<and> lines_of E' = lines_of E
               \<and> cx E' = 0 \<and> cy E' = at"
proof -
  define n where "n = nat at"
  have n: "at = int n" "n < length (row E)" using at by (simp_all add: n_def numrows_def)
  define l where "l = line_of (row_at E at)"
  define p where "p = \<lparr>op_type = OP_DELETE_LINE, op_cx = 0, op_cy = at, op_c = CHR 0x00,
                        op_line = (if l = [] then None else Some l),
                        op_line_size = int (length l)\<rparr>"
  define Ea where "Ea = E\<lparr>undo_stack := p # undo_stack E,
                     row := take (nat at) (row E) @ drop (nat at + 1) (row E),
                     dirty := dirty E + 1, redo_stack := []\<rparr>"
  have step: "editor_del_row at E = Some Ea"
    unfolding Ea_def p_def l_def by (rule del_row_ok [OF at ok])
  have Ea: "row Ea = take n (row E) @ drop (Suc n) (row E)" "allocs Ea = []"
    "undo_stack Ea = p # undo_stack E"
    using al by (simp_all add: Ea_def n_def)
  from rest step have in_row: "edits_in_row es Ea" by simp
  from char_edits_undone [OF Ea(2) in_row] obtain E1 E2 where
    run: "apply_edits es Ea = Some E1" and undone: "undo_times (length es) E1 = Some E2"
    and same: "lines_of E2 = lines_of Ea"
    and E2: "undo_stack E2 = undo_stack Ea" "allocs E2 = []"
    by blast
  have lena: "length (row Ea) = length (row E) - 1" using n by (simp add: Ea(1))
  have len2: "length (row E2) = length (row E) - 1"
    using lines_of_same_length [OF same] lena by simp
  have p: "op_type p = OP_DELETE_LINE" "op_cy p = at" "op_line_size p = int (length l)"
    "op_line p = (if l = [] then None else Some l)"
    by (simp_all add: p_def)
  have "at \<le> numrows E2" using n len2 by (simp add: numrows_def)
  from undo_delete_line_ok [OF _ p(1,2) at(1) this p(3,4) E2(2), of "undo_stack E"] E2(1) Ea(3)
  obtain E3 where E3: "editor_undo E2 = Some E3"
    "row E3 = take (nat at) (row E2) @ [erow_of l] @ drop (nat at) (row E2)"
    "cx E3 = 0" "cy E3 = at"
    by auto
  have lsa: "lines_of Ea = take n (lines_of E) @ drop (Suc n) (lines_of E)"
    by (simp add: lines_of_def Ea(1) take_map drop_map)
  have nl: "n < length (lines_of E)" using n by simp
  have ln: "l = lines_of E ! n" using n by (simp add: l_def nth_lines_of row_at_def n_def)
  have "lines_of E3 = take n (lines_of E2) @ [lines_of E ! n] @ drop n (lines_of E2)"
    by (simp add: lines_of_def [of E3] lines_of_def [of E2] E3(2) n_def [symmetric] take_map
          drop_map ln)
  also have "\<dots> = lines_of E" unfolding same by (rule delete_insert [OF nl lsa])
  finally have "lines_of E3 = lines_of E" .
  moreover from step have "apply_edit (DeleteLine at) E = Some Ea" by simp
  note edit_then_undo_step [OF this run undone E3(1)]
  ultimately show ?thesis using E3(3,4) by (auto simp: edit_then_undo_def)
qed

subsection \<open>The stacks under the forward edits\<close>

lemma alloc_req_keeps:
  "alloc_req n E = Some (ok, E') \<Longrightarrow> E' = alloc_next E \<and> ok = alloc_ok E"
  by (auto simp: alloc_req_def split: if_splits)

lemma normalize_keeps [simp]:
  "undo_stack (editor_selection_normalize E) = undo_stack E"
  "redo_stack (editor_selection_normalize E) = redo_stack E"
  "row (editor_selection_normalize E) = row E"
  "allocs (editor_selection_normalize E) = allocs E"
  "numrows (editor_selection_normalize E) = numrows E"
  by (simp_all add: editor_selection_normalize_def numrows_def)

lemma normalize_rows:
  "sel_start_y (editor_selection_normalize E) \<le> sel_end_y (editor_selection_normalize E)"
  "(sel_start_y (editor_selection_normalize E) = sel_end_y (editor_selection_normalize E))
     = (sel_start_y E = sel_end_y E)"
  "(sel_end_y (editor_selection_normalize E) = sel_start_y (editor_selection_normalize E))
     = (sel_start_y E = sel_end_y E)"
  by (auto simp: editor_selection_normalize_def)

lemma copy_selection_keeps:
  assumes "editor_copy_selection E = Some E1"
  shows "undo_stack E1 = undo_stack E" and "redo_stack E1 = redo_stack E"
    and "row E1 = row E"
    and "allocs E = [] \<Longrightarrow> allocs E1 = []"
    and "(sel_start_y E1 = sel_end_y E1) = (sel_start_y E = sel_end_y E)"
  using assms
  by (auto simp: editor_copy_selection_def Let_def alloc_next_def normalize_rows
           split: if_splits option.splits)

lemma selection_clear_keeps [simp]:
  "undo_stack (editor_selection_clear E) = undo_stack E"
  "redo_stack (editor_selection_clear E) = redo_stack E"
  by (simp_all add: editor_selection_clear_def)

lemma set_row_keeps [simp]:
  "undo_stack (set_row E y s) = undo_stack E"
  "redo_stack (set_row E y s) = redo_stack E"
  "allocs (set_row E y s) = allocs E"
  "numrows (set_row E y s) = numrows E"
  "cx (set_row E y s) = cx E"
  "cy (set_row E y s) = cy E"
  by (simp_all add: set_row_def numrows_def)

lemma alloc_next_keeps [simp]:
  "undo_stack (alloc_next E) = undo_stack E"
  "redo_stack (alloc_next E) = redo_stack E"
  "numrows (alloc_next E) = numrows E"
  by (simp_all add: alloc_next_def numrows_def)

lemma del_row_redo:
  "editor_del_row i E = Some E1 \<Longrightarrow> redo_stack E = [] \<Longrightarrow> redo_stack E1 = []"
  by (auto simp: editor_del_row_def split: if_splits bind_splits)

lemma del_row_clears_redo:
  "editor_del_row i E = Some E1 \<Longrightarrow> 0 \<le> i \<Longrightarrow> i < numrows E \<Longrightarrow> redo_stack E1 = []"
  by (auto simp: editor_del_row_def split: if_splits bind_splits)

lemma del_rows_down_redo:
  "del_rows_down n i E = Some E1 \<Longrightarrow> redo_stack E = [] \<Longrightarrow> redo_stack E1 = []"
proof (induction n arbitrary: i E)
  case 0
  then show ?case by simp
next
  case (Suc n)
  from Suc.prems(1) obtain Ea where a: "editor_del_row i E = Some Ea"
    "del_rows_down n (i - 1) Ea = Some E1"
    by (auto split: option.splits)
  from del_row_redo [OF a(1) Suc.prems(2)] Suc.IH [OF a(2)] show ?case by simp
qed

lemma del_rows_down_clears_redo:
  assumes "del_rows_down n i E = Some E1" and "0 < n" and "0 \<le> i" and "i < numrows E"
  shows "redo_stack E1 = []"
proof -
  from assms(2) obtain m where n: "n = Suc m" by (cases n) simp_all
  with assms(1) obtain Ea where a: "editor_del_row i E = Some Ea"
    "del_rows_down m (i - 1) Ea = Some E1"
    by (auto split: option.splits)
  from del_row_clears_redo [OF a(1) assms(3,4)] have "redo_stack Ea = []" .
  with a(2) show ?thesis by (rule del_rows_down_redo)
qed

lemma selection_delete_one_row_keeps_stacks:
  assumes "keypress_selection_d E = Some E'" and "sel_start_y E = sel_end_y E"
  shows "undo_stack E' = undo_stack E \<and> redo_stack E' = redo_stack E"
proof -
  from assms(1) obtain E1 where copy: "editor_copy_selection E = Some E1"
    by (auto simp: keypress_selection_d_def split: bind_splits)
  from copy_selection_keeps [OF copy] assms(2)
  have keep: "undo_stack E1 = undo_stack E" "redo_stack E1 = redo_stack E"
    "sel_start_y E1 = sel_end_y E1"
    by simp_all
  from keep(3) have "sel_start_y (editor_selection_normalize E1)
                       = sel_end_y (editor_selection_normalize E1)"
    by (simp add: normalize_rows)
  with assms(1) copy keep(1,2) show ?thesis
    by (auto simp: keypress_selection_d_def Let_def split: if_splits bind_splits)
qed

lemma selection_delete_rows_clears_redo:
  assumes "keypress_selection_d E = Some E'" and "sel_start_y E \<noteq> sel_end_y E"
    and "allocs E = []"
  shows "redo_stack E' = []"
proof -
  from assms(1) obtain E1 where copy: "editor_copy_selection E = Some E1"
    by (auto simp: keypress_selection_d_def split: bind_splits)
  define En where "En = editor_selection_normalize E1"
  from copy_selection_keeps [OF copy] assms(2,3)
  have al: "allocs En = []" and ne: "sel_start_y En \<noteq> sel_end_y En"
    by (simp_all add: En_def normalize_rows)
  have le: "sel_start_y En \<le> sel_end_y En" by (simp add: En_def normalize_rows)
  from le ne have lt: "sel_start_y En < sel_end_y En" by simp
  have clears: "redo_stack Ed = []"
    if "del_rows_down (nat (sel_end_y En - sel_start_y En)) (sel_end_y En) Ec = Some Ed"
      and "0 \<le> sel_end_y En" and "sel_end_y En < numrows Ec" for Ec Ed
  proof -
    from lt have "0 < nat (sel_end_y En - sel_start_y En)" by simp
    from del_rows_down_clears_redo [OF that(1) this that(2,3)] show ?thesis .
  qed
  from assms(1) copy ne al show ?thesis
    by (auto simp: keypress_selection_d_def Let_def En_def [symmetric] alloc_req_nil
          split: if_splits bind_splits dest: clears)
qed

lemma insert_row_redo:
  "editor_insert_row at s len E = Some E' \<Longrightarrow> redo_stack E = [] \<Longrightarrow> redo_stack E' = []"
  by (auto simp: editor_insert_row_def Let_def split: if_splits bind_splits
        dest!: alloc_req_keeps)

lemma insert_row_clears_redo:
  assumes "editor_insert_row at s len E = Some E'" and "allocs E = []"
    and "0 \<le> at" and "at \<le> numrows E"
  shows "redo_stack E' = []"
  using assms
  by (auto simp: editor_insert_row_def Let_def alloc_ok_nil alloc_next_nil alloc_req_nil
        split: if_splits bind_splits)

lemma newline_clears_redo:
  assumes "editor_insert_newline E = Some E'"
  shows "redo_stack E' = []"
proof -
  have z: "redo_stack (E\<lparr>redo_stack := []\<rparr>) = []" by simp
  have a: "redo_stack (alloc_next (E\<lparr>redo_stack := []\<rparr>)) = []" by simp
  from assms show ?thesis
    by (auto simp: editor_insert_newline_def Let_def
          split: if_splits bind_splits
          dest: insert_row_redo [OF _ z] insert_row_redo [OF _ a])
qed

lemma insert_char_clears_redo:
  assumes "allocs E = []" and "editor_insert_char c E = Some E'"
  shows "redo_stack E' = []"
proof -
  from assms(2) obtain E1 where
    E1: "(if cy E = numrows E then editor_insert_row (numrows E) empty_literal 0 E else Some E)
           = Some E1"
    by (auto simp: editor_insert_char_def split: bind_splits)
  have rd: "read_ptr empty_literal 0 = Some []"
    by (simp add: read_ptr_def empty_literal_def mem_read_def)
  have "0 \<le> numrows E" by (simp add: numrows_def)
  from insert_row_ok [OF assms(1) this _ rd] E1 assms(1) have "allocs E1 = []"
    by (auto split: if_splits)
  with assms(2) E1 show ?thesis
    by (auto simp: editor_insert_char_def alloc_req_nil split: if_splits bind_splits)
qed

lemma del_char_clears_redo:
  assumes "editor_del_char E = Some E'" and "cy E \<noteq> numrows E" and "\<not> (cx E = 0 \<and> cy E = 0)"
  shows "redo_stack E' = []"
  using assms
  by (auto simp: editor_del_char_def Let_def split: if_splits bind_splits)

subsection \<open>A cursor on the terminator\<close>

lemma row_insert_byte_end:
  assumes ok: "row_ok r"
  shows "row_insert_byte r (rsize r + 1) c \<noteq> None"
proof -
  from ok obtain b where b: "chars r = Some b" "0 \<le> rsize r" "nat (rsize r) < length b"
    by (rule row_okE)
  define n where "n = nat (rsize r)"
  have n: "rsize r = int n" "n < length b" using b by (simp_all add: n_def)
  define bs where "bs = resize (rsize r + 2) (chars r)"
  have bs: "bs = map Some (take (n + 2) b) @ replicate (n + 2 - length b) None"
    using n by (simp add: bs_def resize_def b(1) nat_add_distrib take_map)
  have len: "length bs = n + 2" using n by (simp add: bs)
  have mv: "memmove bs (rsize r + 1 + 1) (rsize r + 1) (rsize r - (rsize r + 1) + 1) = Some bs"
    by (simp add: memmove_def mem_read_def mem_write_def)
  have e: "rsize r + 1 = int (n + 1)" using n by simp
  have wr: "mem_write bs (rsize r + 1) [Some c] = Some (take (n + 1) bs @ [Some c])"
    unfolding e using len mem_write_nat [of "n + 1" "[Some c]" bs] by simp
  have "take (n + 1) bs = map Some (take (n + 1) b)"
    using n by (simp add: bs take_map min_def)
  then have "freeze (take (n + 1) bs @ [Some c]) = Some (take (n + 1) b @ [c])"
    by (auto simp: freeze_def)
  with mv wr show ?thesis
    by (simp add: row_insert_byte_def bs_def [symmetric])
qed

lemma insert_char_defined:
  assumes al: "allocs E = []" and cur: "cursor_near_row E"
  shows "editor_insert_char c E \<noteq> None"
proof (cases "cx E \<le> row_size E (cy E)")
  case True
  with cur have "0 \<le> cy E" "cy E < numrows E" "0 \<le> cx E" "cx E \<le> row_size E (cy E)"
    "row_ok (row_at E (cy E))"
    by (simp_all add: cursor_near_row_def)
  from insert_char_ok [OF al this] show ?thesis by auto
next
  case False
  with cur have x: "cx E = rsize (row_at E (cy E)) + 1" and y: "0 \<le> cy E" "cy E < numrows E"
    and ok: "row_ok (row_at E (cy E))"
    by (simp_all add: cursor_near_row_def row_size_def)
  from ok have "0 \<le> rsize (row_at E (cy E))" by (rule row_okE)
  then have req: "0 < rsize (row_at E (cy E)) + 2" by simp
  from row_insert_byte_end [OF ok, of c] obtain r' where
    "row_insert_byte (row_at E (cy E)) (rsize (row_at E (cy E)) + 1) c = Some r'"
    by auto
  with al x y req show ?thesis
    by (simp add: editor_insert_char_def push_operation_null alloc_req_nil set_row_def
          numrows_def row_at_def row_size_def)
qed

lemma del_char_defined:
  assumes cur: "cursor_near_row E" and x: "0 < cx E"
  shows "editor_del_char E \<noteq> None"
proof -
  let ?r = "row_at E (cy E)"
  from cur have y: "0 \<le> cy E" "cy E < numrows E" and x1: "cx E \<le> rsize ?r + 1"
    and ok: "row_ok ?r"
    by (simp_all add: cursor_near_row_def row_size_def)
  from ok obtain b where b: "chars ?r = Some b" "0 \<le> rsize ?r" "nat (rsize ?r) < length b"
    by (rule row_okE)
  have rd: "mem_read b (cx E - 1) 1 \<noteq> None"
    using x x1 b by (simp add: mem_read_def)
  have mv: "memmove b (cx E - 1) (cx E) (rsize ?r - cx E + 1) \<noteq> None"
    using x x1 b by (auto simp: memmove_def mem_read_def mem_write_def)
  from rd mv obtain c b' where "mem_read b (cx E - 1) 1 = Some c"
    "memmove b (cx E - 1) (cx E) (rsize ?r - cx E + 1) = Some b'"
    by auto
  with y x b(1) show ?thesis
    by (simp add: editor_del_char_def push_operation_null Let_def)
qed

section \<open>Selection containment and paste\<close>

text \<open>
  C9. For an active selection (the selecting flag is set and the start is not the
  sentinel \<open>-1\<close>) whose endpoints are in order, \<^verbatim>\<open>is_position_selected\<close> is true
  exactly when the row is within the selection, the position is not left of the start
  column on the first row and is left of the end column on the last row.
\<close>

theorem is_position_selected_iff:
  assumes "selecting E" and "sel_start_x E \<noteq> -1"
    and "\<not> (sel_end_y E < sel_start_y E
            \<or> (sel_end_y E = sel_start_y E \<and> sel_end_x E < sel_start_x E))"
  shows "is_position_selected x y E \<longleftrightarrow>
           (sel_start_y E \<le> y \<and> y \<le> sel_end_y E
            \<and> (y > sel_start_y E \<or> x \<ge> sel_start_x E)
            \<and> (y < sel_end_y E \<or> x < sel_end_x E))"
  using assms by (auto simp: is_position_selected_def Let_def)

theorem is_position_selected_iff_witness:
  "selecting ((buffer [''ab'', ''cd''] 0 0)
      \<lparr>sel_start_x := 1, sel_start_y := 0, sel_end_x := 1, sel_end_y := 1, selecting := True\<rparr>)
   \<and> is_position_selected 0 1 ((buffer [''ab'', ''cd''] 0 0)
      \<lparr>sel_start_x := 1, sel_start_y := 0, sel_end_x := 1, sel_end_y := 1, selecting := True\<rparr>)
   \<and> \<not> is_position_selected 1 1 ((buffer [''ab'', ''cd''] 0 0)
      \<lparr>sel_start_x := 1, sel_start_y := 0, sel_end_x := 1, sel_end_y := 1, selecting := True\<rparr>)
   \<and> \<not> is_position_selected 0 0 ((buffer [''ab'', ''cd''] 0 0)
      \<lparr>sel_start_x := 1, sel_start_y := 0, sel_end_x := 1, sel_end_y := 1, selecting := True\<rparr>)"
  using is_position_selected_iff [of "(buffer [''ab'', ''cd''] 0 0)
      \<lparr>sel_start_x := 1, sel_start_y := 0, sel_end_x := 1, sel_end_y := 1, selecting := True\<rparr>"]
  by simp

text \<open>
  C10. With no clipboard (no copy was ever made) or a clipboard of length zero,
  \<^verbatim>\<open>editor_paste\<close> returns the configuration it was given with the status message
  "Nothing to paste": rows, cursor and both stacks are as before.
\<close>

theorem paste_empty_clipboard:
  assumes "clipboard E = None \<or> clipboard_len E = 0"
  shows "editor_paste E = Some (E\<lparr>statusmsg := ''Nothing to paste''\<rparr>)"
  using assms by (auto simp: editor_paste_def split: option.splits)

theorem paste_empty_clipboard_witness:
  "clipboard (buffer [''ab'', ''cd''] 1 1) = None
   \<and> editor_paste (buffer [''ab'', ''cd''] 1 1)
       = Some ((buffer [''ab'', ''cd''] 1 1)\<lparr>statusmsg := ''Nothing to paste''\<rparr>)"
  using paste_empty_clipboard [of "buffer [''ab'', ''cd''] 1 1"]
  by (simp add: buffer_def init_editor_def)

section \<open>Where the code departs from the specification\<close>

text \<open>
  C6. Delete-char at the start of the buffer changes nothing. With the cursor at
  column 0 of row 1, the source inserts a copy of row 1 above row 0 and then deletes
  the old row 0: on the rows "ab", "cd" the result is "cd", "cd", with the cursor at
  column 2 of row 0, and not the one merged row "abcd".
\<close>

theorem del_char_row_start_duplicates_row:
  "editor_del_char (buffer [''ab'', ''cd''] 0 0) = Some (buffer [''ab'', ''cd''] 0 0)
   \<and> map_option row (editor_del_char (buffer [''ab'', ''cd''] 0 1))
       = Some [erow_of ''cd'', erow_of ''cd'']
   \<and> map_option lines_of (editor_del_char (buffer [''ab'', ''cd''] 0 1)) = Some [''cd'', ''cd'']
   \<and> map_option cx (editor_del_char (buffer [''ab'', ''cd''] 0 1)) = Some 2
   \<and> map_option cy (editor_del_char (buffer [''ab'', ''cd''] 0 1)) = Some 0"
  by code_simp

text \<open>
  C7. \<^verbatim>\<open>editor_insert_row\<close> at row 0 of the rows "a", "b", when the row array grows
  and the allocation of the new row's bytes fails: the status message is set, but the
  rows have been moved already and slot 0 has received the \<^verbatim>\<open>NULL\<close> of the failed
  allocation. The two counted slots are then: the size 1 of the old row "a" with no
  bytes, which is not a well-formed row, and the old row "a"; the row "b" is no longer
  counted.
\<close>

theorem insert_row_malloc_failure_breaks_rows:
  "lines_of ((buffer [''a'', ''b''] 0 0)\<lparr>allocs := [True, False]\<rparr>) = [''a'', ''b'']
   \<and> map_option row
        (editor_insert_row 0 (Some (terminated ''x''), 0) 1
           ((buffer [''a'', ''b''] 0 0)\<lparr>allocs := [True, False]\<rparr>))
       = Some [\<lparr>rsize = 1, chars = None\<rparr>, erow_of ''a'']
   \<and> map_option (map row_ok \<circ> row)
        (editor_insert_row 0 (Some (terminated ''x''), 0) 1
           ((buffer [''a'', ''b''] 0 0)\<lparr>allocs := [True, False]\<rparr>))
       = Some [False, True]
   \<and> map_option statusmsg
        (editor_insert_row 0 (Some (terminated ''x''), 0) 1
           ((buffer [''a'', ''b''] 0 0)\<lparr>allocs := [True, False]\<rparr>))
       = Some ''Memory allocation failed''"
  by code_simp

text \<open>
  C8. Delete-char with the cursor at column 0 of row 1 of the rows "hello", "": the
  invariant holds before, and afterwards the cursor is at column 5 of an empty row.
\<close>

theorem del_char_breaks_cursor_invariant:
  "buffer_invariant (buffer [''hello'', ''''] 0 1)
   \<and> map_option buffer_invariant (editor_del_char (buffer [''hello'', ''''] 0 1)) = Some False
   \<and> map_option cx (editor_del_char (buffer [''hello'', ''''] 0 1)) = Some 5
   \<and> map_option row (editor_del_char (buffer [''hello'', ''''] 0 1))
       = Some [erow_of '''', erow_of '''']"
  by code_simp

text \<open>
  C4. Newline in the empty buffer gives one empty row. The undo of it changes no row
  (the cursor is on row 0), and the redo splits again: two empty rows.
\<close>

theorem redo_newline_empty_buffer_adds_row:
  "map_option row (editor_insert_newline (buffer [] 0 0)) = Some [erow_of '''']
   \<and> map_option row
        (Option.bind (Option.bind (editor_insert_newline (buffer [] 0 0)) editor_undo) editor_redo)
       = Some [erow_of '''', erow_of '''']"
  by code_simp

section \<open>One undo per edit\<close>

text \<open>
  Where one undo per edit does not give the buffer or the cursor back. A row operation
  that is not the first edit: a typed character followed by a newline, and two row
  insertions. The cursor after the undo of a deleted character (column 0, not 1) and
  of an inserted row (column 0 of row 1, not column 1 of row 0). Edits outside a row:
  a character typed and a newline in the empty buffer, delete-char at column 0 of
  row 1, and a character typed one column behind the end of a row.
\<close>

theorem undo_round_trip_counterexample:
  "lines_of (buffer [''ab''] 1 0) = [''ab'']
   \<and> map_option lines_of (edit_then_undo [InsertChar CHR ''x'', Newline] (buffer [''ab''] 1 0))
     = Some [''axb'', ''b'']
   \<and> map_option lines_of (edit_then_undo [InsertLine 0 ''a'', InsertLine 1 ''b''] (buffer [] 0 0))
     = Some [''a'', ''b'']
   \<and> map_option lines_of (edit_then_undo [DeleteChar] (buffer [''ab''] 1 0)) = Some [''ab'']
   \<and> map_option cx (edit_then_undo [DeleteChar] (buffer [''ab''] 1 0)) = Some 0
   \<and> map_option cx (edit_then_undo [InsertLine 1 ''zz''] (buffer [''ab'', ''cd''] 1 0)) = Some 0
   \<and> map_option cy (edit_then_undo [InsertLine 1 ''zz''] (buffer [''ab'', ''cd''] 1 0)) = Some 1
   \<and> map_option lines_of (edit_then_undo [InsertChar CHR ''x''] (buffer [] 0 0)) = Some ['''']
   \<and> map_option lines_of (edit_then_undo [Newline] (buffer [] 0 0)) = Some ['''']
   \<and> map_option lines_of (edit_then_undo [DeleteChar] (buffer [''ab'', ''cd''] 0 1))
     = Some [''cd'', ''ab'', ''cd'']
   \<and> map_option lines_of (edit_then_undo [InsertChar CHR ''q''] (buffer [''c'', ''c''] 2 0))
     = Some [[CHR ''c'', CHR 0x00], ''c'']"
  by code_simp

text \<open>
  C1, for a sequence of edits of which the first takes effect (a character edit or a
  newline with the cursor inside an existing row, a row inserted at a position within
  \<open>0..numrows\<close>, an existing row deleted) and the further ones are character edits
  inside a row. With every checked allocation succeeding, one undo per edit gives every
  row its prior content back, and leaves the cursor at the position recorded by the
  first edit: the prior position when that is a character insertion or a newline, one
  column to the left when it is a character deletion, column 0 of the row when it is a
  row operation.
\<close>

theorem undo_restores_lines:
  assumes "allocs E = []" and "first_then_in_row es E"
  shows "\<exists>E'. edit_then_undo es E = Some E' \<and> lines_of E' = lines_of E
               \<and> cx E' = undone_cx es E \<and> cy E' = undone_cy es E"
proof (cases es)
  case Nil
  then show ?thesis by (simp add: edit_then_undo_def)
next
  case (Cons e es')
  show ?thesis
  proof (cases e)
    case (InsertChar c)
    with Cons assms(2) have "edits_in_row es E" by simp
    from char_edits_undone [OF assms(1) this] Cons InsertChar show ?thesis
      by (auto simp: edit_then_undo_def)
  next
    case DeleteChar
    with Cons assms(2) have "edits_in_row es E" by simp
    from char_edits_undone [OF assms(1) this] Cons DeleteChar show ?thesis
      by (auto simp: edit_then_undo_def)
  next
    case Newline
    with Cons assms(2) newline_head_undone [OF assms(1), where es = es'] show ?thesis by simp
  next
    case (InsertLine at s)
    with Cons assms(2) insert_line_head_undone [OF assms(1), where at = at and s = s and es = es']
    show ?thesis by simp
  next
    case (DeleteLine at)
    with Cons assms(2) delete_line_head_undone [OF assms(1), where at = at and es = es']
    show ?thesis by simp
  qed
qed

theorem undo_restores_lines_witness:
  "allocs (buffer [''hello'', ''world''] 5 0) = []
   \<and> first_then_in_row [Newline, InsertChar CHR ''x'', InsertChar CHR ''y'', DeleteChar]
        (buffer [''hello'', ''world''] 5 0)
   \<and> map_option lines_of
        (edit_then_undo [Newline, InsertChar CHR ''x'', InsertChar CHR ''y'', DeleteChar]
           (buffer [''hello'', ''world''] 5 0)) = Some [''hello'', ''world'']
   \<and> map_option cx
        (edit_then_undo [Newline, InsertChar CHR ''x'', InsertChar CHR ''y'', DeleteChar]
           (buffer [''hello'', ''world''] 5 0)) = Some 5
   \<and> map_option cy
        (edit_then_undo [Newline, InsertChar CHR ''x'', InsertChar CHR ''y'', DeleteChar]
           (buffer [''hello'', ''world''] 5 0)) = Some 0
   \<and> first_then_in_row [InsertLine 1 ''zz'', InsertChar CHR ''x''] (buffer [''ab'', ''cd''] 1 0)
   \<and> map_option lines_of
        (edit_then_undo [InsertLine 1 ''zz'', InsertChar CHR ''x''] (buffer [''ab'', ''cd''] 1 0))
       = Some [''ab'', ''cd'']
   \<and> first_then_in_row [DeleteLine 1, DeleteChar] (buffer [''ab'', ''cd''] 1 0)
   \<and> map_option lines_of (edit_then_undo [DeleteLine 1, DeleteChar] (buffer [''ab'', ''cd''] 1 0))
       = Some [''ab'', ''cd'']
   \<and> first_then_in_row [DeleteChar, InsertChar CHR ''q''] (buffer [''ab'', ''cd''] 1 1)
   \<and> map_option lines_of
        (edit_then_undo [DeleteChar, InsertChar CHR ''q''] (buffer [''ab'', ''cd''] 1 1))
       = Some [''ab'', ''cd'']
   \<and> map_option cx
        (edit_then_undo [DeleteChar, InsertChar CHR ''q''] (buffer [''ab'', ''cd''] 1 1))
       = Some 0"
proof -
  let ?A = "buffer [''hello'', ''world''] 5 0"
  let ?as = "[Newline, InsertChar CHR ''x'', InsertChar CHR ''y'', DeleteChar]"
  let ?B = "buffer [''ab'', ''cd''] 1 0"
  let ?bs = "[InsertLine 1 ''zz'', InsertChar CHR ''x'']"
  let ?cs = "[DeleteLine 1, DeleteChar]"
  let ?D = "buffer [''ab'', ''cd''] 1 1"
  let ?ds = "[DeleteChar, InsertChar CHR ''q'']"
  have al: "allocs ?A = []" "allocs ?B = []" "allocs ?D = []" by code_simp+
  have h: "first_then_in_row ?as ?A" "first_then_in_row ?bs ?B" "first_then_in_row ?cs ?B"
    "first_then_in_row ?ds ?D"
    by code_simp+
  have start: "lines_of ?A = [''hello'', ''world'']" "cx ?A = 5" "cy ?A = 0"
    "lines_of ?B = [''ab'', ''cd'']" "lines_of ?D = [''ab'', ''cd'']" "cx ?D = 1"
    by code_simp+
  from undo_restores_lines [OF al(1) h(1)] undo_restores_lines [OF al(2) h(2)]
    undo_restores_lines [OF al(2) h(3)] undo_restores_lines [OF al(3) h(4)] start al h
  show ?thesis by auto
qed

section \<open>What a forward edit does to the two stacks\<close>

text \<open>
  Edits that push two operations (a newline, a character typed past the last row, a
  delete-char at column 0 of a later row) and one that pushes none (the deletion of a
  selection within one row), all from an empty undo stack.
\<close>

theorem edits_pushing_other_than_one_operation:
  "undo_stack (buffer [''hello'', ''world''] 5 0) = []
   \<and> map_option (map op_type \<circ> undo_stack) (editor_insert_newline (buffer [''hello'', ''world''] 5 0))
     = Some [OP_NEWLINE, OP_INSERT_LINE]
   \<and> map_option (map op_type \<circ> undo_stack) (editor_insert_char CHR ''x'' (buffer [] 0 0))
     = Some [OP_INSERT_CHAR, OP_INSERT_LINE]
   \<and> map_option (map op_type \<circ> undo_stack) (editor_del_char (buffer [''ab'', ''cd''] 0 1))
     = Some [OP_DELETE_LINE, OP_INSERT_LINE]
   \<and> lines_of selection_in_row = [''abc'']
   \<and> map_option lines_of (keypress_selection_d selection_in_row) = Some [''c'']
   \<and> undo_stack selection_in_row = []
   \<and> map_option undo_stack (keypress_selection_d selection_in_row) = Some []"
  by code_simp

text \<open>
  C2, for the edits that push one operation. When every checked allocation succeeds, a
  row insertion at a position within \<open>0..numrows\<close> from bytes that can be read and the
  deletion of a well-formed row at a position within \<open>0..numrows-1\<close> push exactly one
  operation on the undo stack, and so do a character insertion and a character deletion
  that take effect inside an existing row; the deletion of a selection within one row
  pushes none.
\<close>

theorem edit_pushes_one_operation:
  assumes "allocs E = []"
  shows "(0 \<le> at \<and> at \<le> numrows E \<and> read_ptr s len \<noteq> None
            \<longrightarrow> (\<exists>E'. editor_insert_row at s len E = Some E'
                      \<and> pushed_one (undo_stack E) (undo_stack E')))
       \<and> (0 \<le> at \<and> at < numrows E \<and> row_ok (row_at E at)
            \<longrightarrow> (\<exists>E'. editor_del_row at E = Some E'
                      \<and> pushed_one (undo_stack E) (undo_stack E')))
       \<and> (edit_in_row (InsertChar c) E
            \<longrightarrow> (\<exists>E'. editor_insert_char c E = Some E'
                      \<and> pushed_one (undo_stack E) (undo_stack E')))
       \<and> (edit_in_row DeleteChar E
            \<longrightarrow> (\<exists>E'. editor_del_char E = Some E'
                      \<and> pushed_one (undo_stack E) (undo_stack E')))
       \<and> (sel_start_y E = sel_end_y E
            \<longrightarrow> (\<forall>E'. keypress_selection_d E = Some E' \<longrightarrow> undo_stack E' = undo_stack E))"
proof (intro conjI impI allI)
  assume a: "0 \<le> at \<and> at \<le> numrows E \<and> read_ptr s len \<noteq> None"
  then obtain bytes where "read_ptr s len = Some bytes" by auto
  from insert_row_ok [OF assms _ _ this, of at] a
  show "\<exists>E'. editor_insert_row at s len E = Some E' \<and> pushed_one (undo_stack E) (undo_stack E')"
    by (simp add: pushed_one_def)
next
  assume a: "0 \<le> at \<and> at < numrows E \<and> row_ok (row_at E at)"
  from del_row_ok [of at E] a
  show "\<exists>E'. editor_del_row at E = Some E' \<and> pushed_one (undo_stack E) (undo_stack E')"
    by (simp add: pushed_one_def)
next
  assume "edit_in_row (InsertChar c) E"
  then have "0 \<le> cy E" "cy E < numrows E" "0 \<le> cx E" "cx E \<le> row_size E (cy E)"
    "row_ok (row_at E (cy E))"
    by (simp_all add: cursor_in_row_def)
  from insert_char_ok [OF assms this, of c]
  show "\<exists>E'. editor_insert_char c E = Some E' \<and> pushed_one (undo_stack E) (undo_stack E')"
    by (auto simp: pushed_one_def)
next
  assume "edit_in_row DeleteChar E"
  then have "0 \<le> cy E" "cy E < numrows E" "0 < cx E" "cx E \<le> row_size E (cy E)"
    "row_ok (row_at E (cy E))"
    by (simp_all add: cursor_in_row_def)
  from del_char_ok [OF this]
  show "\<exists>E'. editor_del_char E = Some E' \<and> pushed_one (undo_stack E) (undo_stack E')"
    by (auto simp: pushed_one_def)
next
  fix E'
  assume "sel_start_y E = sel_end_y E" and "keypress_selection_d E = Some E'"
  from selection_delete_one_row_keeps_stacks [OF this(2) this(1)]
  show "undo_stack E' = undo_stack E" by simp
qed

theorem edit_pushes_one_operation_witness:
  "allocs selection_in_row = [] \<and> numrows selection_in_row = 1
   \<and> read_ptr (Some (terminated ''x''), 0) 1 = Some ''x''
   \<and> row_ok (row_at selection_in_row 0)
   \<and> edit_in_row (InsertChar CHR ''x'') selection_in_row
   \<and> edit_in_row DeleteChar selection_in_row
   \<and> sel_start_y selection_in_row = sel_end_y selection_in_row
   \<and> (\<exists>E'. editor_insert_row 0 (Some (terminated ''x''), 0) 1 selection_in_row = Some E'
            \<and> pushed_one (undo_stack selection_in_row) (undo_stack E'))
   \<and> (\<exists>E'. editor_del_row 0 selection_in_row = Some E'
            \<and> pushed_one (undo_stack selection_in_row) (undo_stack E'))
   \<and> (\<exists>E'. editor_insert_char CHR ''x'' selection_in_row = Some E'
            \<and> pushed_one (undo_stack selection_in_row) (undo_stack E'))
   \<and> (\<exists>E'. editor_del_char selection_in_row = Some E'
            \<and> pushed_one (undo_stack selection_in_row) (undo_stack E'))
   \<and> map_option undo_stack (keypress_selection_d selection_in_row)
       = Some (undo_stack selection_in_row)"
proof -
  let ?S = selection_in_row
  have hyps: "allocs ?S = []" "numrows ?S = 1" "read_ptr (Some (terminated ''x''), 0) 1 = Some ''x''"
    "row_ok (row_at ?S 0)" "edit_in_row (InsertChar CHR ''x'') ?S"
    "edit_in_row DeleteChar ?S" "sel_start_y ?S = sel_end_y ?S"
    by code_simp+
  have "keypress_selection_d ?S \<noteq> None" by code_simp
  then obtain E' where d: "keypress_selection_d ?S = Some E'" by auto
  from edit_pushes_one_operation [OF hyps(1), of 0 "(Some (terminated ''x''), 0)" 1 "CHR ''x''"]
    hyps d
  show ?thesis by simp
qed

text \<open>
  Deleting the selection "ab" of the row "abc" leaves the row "c" and the redo stack as
  it was, with the undone insert on it.
\<close>

theorem selection_delete_in_row_keeps_redo:
  "map_option lines_of (keypress_selection_d selection_in_row) = Some [''c'']
   \<and> map_option (map op_type \<circ> redo_stack) (keypress_selection_d selection_in_row)
     = Some [OP_INSERT_CHAR]"
  by code_simp

text \<open>
  C5, for the edits that reach the operation log. When every checked allocation
  succeeds, the redo stack is empty, whatever it held before, after a row insertion or
  deletion at a valid position, after a character insertion, after a newline, after a
  character deletion other than the ones the source skips (cursor past the last row, or
  at the start of the buffer), and after the deletion of a selection that spans several
  rows. The row functions return for bytes that can be read and for a well-formed row;
  the character functions return with the cursor on a well-formed row and at most one
  column behind its end, the newline with the cursor inside such a row.
\<close>

theorem forward_edit_clears_redo:
  assumes "allocs E = []"
  shows "(0 \<le> at \<and> at \<le> numrows E
            \<longrightarrow> (\<forall>E'. editor_insert_row at s len E = Some E' \<longrightarrow> redo_stack E' = []))
       \<and> (0 \<le> at \<and> at < numrows E
            \<longrightarrow> (\<forall>E'. editor_del_row at E = Some E' \<longrightarrow> redo_stack E' = []))
       \<and> (\<forall>E'. editor_insert_char c E = Some E' \<longrightarrow> redo_stack E' = [])
       \<and> (\<forall>E'. editor_insert_newline E = Some E' \<longrightarrow> redo_stack E' = [])
       \<and> (cy E \<noteq> numrows E \<and> \<not> (cx E = 0 \<and> cy E = 0)
            \<longrightarrow> (\<forall>E'. editor_del_char E = Some E' \<longrightarrow> redo_stack E' = []))
       \<and> (sel_start_y E \<noteq> sel_end_y E
            \<longrightarrow> (\<forall>E'. keypress_selection_d E = Some E' \<longrightarrow> redo_stack E' = []))
       \<and> (0 \<le> at \<and> at \<le> numrows E \<and> read_ptr s len \<noteq> None
            \<longrightarrow> editor_insert_row at s len E \<noteq> None)
       \<and> (0 \<le> at \<and> at < numrows E \<and> row_ok (row_at E at) \<longrightarrow> editor_del_row at E \<noteq> None)
       \<and> (cursor_near_row E \<longrightarrow> editor_insert_char c E \<noteq> None)
       \<and> (cursor_in_row E \<longrightarrow> editor_insert_newline E \<noteq> None)
       \<and> (cursor_near_row E \<and> 0 < cx E \<longrightarrow> editor_del_char E \<noteq> None)"
proof (intro conjI impI allI)
  fix E'
  assume "0 \<le> at \<and> at \<le> numrows E" and "editor_insert_row at s len E = Some E'"
  with assms show "redo_stack E' = []" by (simp add: insert_row_clears_redo)
next
  fix E'
  assume "0 \<le> at \<and> at < numrows E" and "editor_del_row at E = Some E'"
  then show "redo_stack E' = []" by (simp add: del_row_clears_redo)
next
  fix E'
  assume "editor_insert_char c E = Some E'"
  with assms show "redo_stack E' = []" by (rule insert_char_clears_redo)
next
  fix E'
  assume "editor_insert_newline E = Some E'"
  then show "redo_stack E' = []" by (rule newline_clears_redo)
next
  fix E'
  assume "cy E \<noteq> numrows E \<and> \<not> (cx E = 0 \<and> cy E = 0)" and "editor_del_char E = Some E'"
  then show "redo_stack E' = []" by (simp add: del_char_clears_redo)
next
  fix E'
  assume "sel_start_y E \<noteq> sel_end_y E" and "keypress_selection_d E = Some E'"
  from selection_delete_rows_clears_redo [OF this(2) this(1) assms]
  show "redo_stack E' = []" .
next
  assume a: "0 \<le> at \<and> at \<le> numrows E \<and> read_ptr s len \<noteq> None"
  then obtain bytes where "read_ptr s len = Some bytes" by auto
  from insert_row_ok [OF assms _ _ this, of at] a
  show "editor_insert_row at s len E \<noteq> None" by simp
next
  assume a: "0 \<le> at \<and> at < numrows E \<and> row_ok (row_at E at)"
  from del_row_ok [of at E] a show "editor_del_row at E \<noteq> None" by simp
next
  assume "cursor_near_row E"
  with assms show "editor_insert_char c E \<noteq> None" by (rule insert_char_defined)
next
  assume "cursor_in_row E"
  from newline_ok [OF assms this] show "editor_insert_newline E \<noteq> None" by auto
next
  assume "cursor_near_row E \<and> 0 < cx E"
  then show "editor_del_char E \<noteq> None" by (simp add: del_char_defined)
qed

theorem forward_edit_clears_redo_witness:
  "allocs selection_over_rows = [] \<and> numrows selection_over_rows = 3
   \<and> cy selection_over_rows \<noteq> numrows selection_over_rows
   \<and> cx selection_over_rows = 2
   \<and> sel_start_y selection_over_rows \<noteq> sel_end_y selection_over_rows
   \<and> read_ptr (Some (terminated ''x''), 0) 1 = Some ''x''
   \<and> row_ok (row_at selection_over_rows 0)
   \<and> cursor_in_row selection_over_rows
   \<and> cursor_near_row selection_over_rows
   \<and> redo_stack selection_over_rows \<noteq> []
   \<and> map_option redo_stack
        (editor_insert_row 0 (Some (terminated ''x''), 0) 1 selection_over_rows) = Some []
   \<and> map_option redo_stack (editor_del_row 0 selection_over_rows) = Some []
   \<and> map_option redo_stack (editor_insert_char CHR ''x'' selection_over_rows) = Some []
   \<and> map_option redo_stack (editor_insert_newline selection_over_rows) = Some []
   \<and> map_option redo_stack (editor_del_char selection_over_rows) = Some []
   \<and> map_option redo_stack (keypress_selection_d selection_over_rows) = Some []
   \<and> allocs cursor_on_terminator = []
   \<and> cx cursor_on_terminator = row_size cursor_on_terminator (cy cursor_on_terminator) + 1
   \<and> cursor_near_row cursor_on_terminator
   \<and> redo_stack cursor_on_terminator \<noteq> []
   \<and> map_option redo_stack (editor_insert_char CHR ''x'' cursor_on_terminator) = Some []
   \<and> map_option redo_stack (editor_del_char cursor_on_terminator) = Some []"
proof -
  let ?S = selection_over_rows
  let ?T = cursor_on_terminator
  have hyps: "allocs ?S = []" "numrows ?S = 3" "cy ?S \<noteq> numrows ?S" "cx ?S = 2"
    "sel_start_y ?S \<noteq> sel_end_y ?S" "read_ptr (Some (terminated ''x''), 0) 1 = Some ''x''"
    "row_ok (row_at ?S 0)" "cursor_in_row ?S" "cursor_near_row ?S" "redo_stack ?S \<noteq> []"
    by code_simp+
  have hypt: "allocs ?T = []" "cx ?T = row_size ?T (cy ?T) + 1" "cursor_near_row ?T"
    "redo_stack ?T \<noteq> []" "cy ?T \<noteq> numrows ?T" "cx ?T = 2"
    by code_simp+
  have "keypress_selection_d ?S \<noteq> None" by code_simp
  then obtain E4 where r: "keypress_selection_d ?S = Some E4" by auto
  note s = forward_edit_clears_redo [OF hyps(1), of 0 "(Some (terminated ''x''), 0)" 1 "CHR ''x''"]
  note t = forward_edit_clears_redo [OF hypt(1), of 0 "(Some (terminated ''x''), 0)" 1 "CHR ''x''"]
  from s hyps r have
    "map_option redo_stack
       (editor_insert_row 0 (Some (terminated ''x''), 0) 1 ?S) = Some []"
    "map_option redo_stack (editor_del_row 0 ?S) = Some []"
    "map_option redo_stack (editor_insert_char CHR ''x'' ?S) = Some []"
    "map_option redo_stack (editor_insert_newline ?S) = Some []"
    "map_option redo_stack (editor_del_char ?S) = Some []"
    "map_option redo_stack (keypress_selection_d ?S) = Some []"
    by auto
  moreover from t hypt have
    "map_option redo_stack (editor_insert_char CHR ''x'' ?T) = Some []"
    "map_option redo_stack (editor_del_char ?T) = Some []"
    by auto
  ultimately show ?thesis using hyps hypt(1-4) by simp
qed

section \<open>Undo through the edit engine\<close>

text \<open>
  C3. On an empty undo stack \<^verbatim>\<open>editor_undo\<close> only sets the status message. After a
  newline in the row "ab" and a typed character, the first undo takes the character
  back in place: the newline is on top of the undo stack and the character on the redo
  stack. The second undo merges the rows and deletes the lower one through
  \<^verbatim>\<open>editor_del_row\<close>, which pushes a row deletion on the undo stack and empties the
  redo stack: afterwards the undo stack is as long as before and the redo stack has
  lost the character.
\<close>

theorem undo_newline_reenters_edit_engine:
  "editor_undo (buffer [''ab''] 1 0)
     = Some ((buffer [''ab''] 1 0)\<lparr>statusmsg := ''Nothing to undo''\<rparr>)
   \<and> map_option (map op_type \<circ> undo_stack)
       (Option.bind (apply_edits [Newline, InsertChar CHR ''x''] (buffer [''ab''] 1 0))
          (undo_times 1))
     = Some [OP_NEWLINE, OP_INSERT_LINE]
   \<and> map_option (map op_type \<circ> redo_stack)
       (Option.bind (apply_edits [Newline, InsertChar CHR ''x''] (buffer [''ab''] 1 0))
          (undo_times 1))
     = Some [OP_INSERT_CHAR]
   \<and> map_option (map op_type \<circ> undo_stack)
       (Option.bind (apply_edits [Newline, InsertChar CHR ''x''] (buffer [''ab''] 1 0))
          (undo_times 2))
     = Some [OP_DELETE_LINE, OP_INSERT_LINE]
   \<and> map_option (map op_type \<circ> redo_stack)
       (Option.bind (apply_edits [Newline, InsertChar CHR ''x''] (buffer [''ab''] 1 0))
          (undo_times 2))
     = Some [OP_NEWLINE]"
  by code_simp

end
